theory Spec2Isabelle
  imports Main
begin

section \<open>The ctl tree of libpmemobj (src/libpmemobj/ctl.c)\<close>

text \<open>
  A shallow embedding of \<^verbatim>\<open>ctl.c\<close>: the control tree, the query parser
  \<^verbatim>\<open>ctl_query\<close>, the registration of module nodes, and the string query
  provider with the configuration loader. C strings are \<open>string\<close>s (the characters
  before the terminating NUL), a \<^verbatim>\<open>char *\<close> that may be NULL is a
  \<open>string option\<close>, and any other pointer that may be NULL is an \<open>option\<close>.
\<close>

subsection \<open>Data model\<close>

text \<open>
  Modelled from the spec: the header \<^verbatim>\<open>ctl.h\<close> (the enums, \<^verbatim>\<open>struct ctl_index\<close>,
  \<^verbatim>\<open>struct ctl_node\<close>, the callback type) is not among the sources. The fields are
  the ones \<^verbatim>\<open>ctl.c\<close> reads and writes: \<^verbatim>\<open>name\<close>, \<^verbatim>\<open>type\<close>, \<^verbatim>\<open>read_cb\<close>,
  \<^verbatim>\<open>write_cb\<close>, \<^verbatim>\<open>children\<close> of a node, \<^verbatim>\<open>name\<close> and \<^verbatim>\<open>value\<close> of an index.
\<close>

datatype ctl_query_type = CTL_QUERY_PROGRAMMATIC | CTL_QUERY_CONFIG_INPUT

datatype ctl_node_type =
  CTL_NODE_UNKNOWN | CTL_NODE_NAMED | CTL_NODE_LEAF | CTL_NODE_INDEXED

datatype ctl_index = Ctl_index (idx_name: "string option") (idx_value: int)

text \<open>
  A callback receives the pool, the origin of the query, its argument and the list of
  indexes, and returns a status. \<open>'p\<close> is everything a callback may read or change (the
  pool and the buffers its argument points to); the callback returns the new \<open>'p\<close>.
\<close>

type_synonym ('p, 'a) node_callback =
  "'p \<Rightarrow> ctl_query_type \<Rightarrow> 'a \<Rightarrow> ctl_index list \<Rightarrow> int \<times> 'p"

text \<open>
  An array of nodes is the list of its elements, the terminating element (the one whose
  \<^verbatim>\<open>name\<close> is NULL) included; \<^verbatim>\<open>children\<close> is \<open>None\<close> for a NULL pointer.
\<close>

datatype ('p, 'a) ctl_node = Ctl_node
  (node_name: "string option")
  (node_type: ctl_node_type)
  (read_cb: "('p, 'a) node_callback option")
  (write_cb: "('p, 'a) node_callback option")
  (children: "('p, 'a) ctl_node list option")

definition CTL_NODE_END :: "('p, 'a) ctl_node" where
  "CTL_NODE_END = Ctl_node None CTL_NODE_UNKNOWN None None None"

definition CTL_MAX_ENTRIES :: int where
  "CTL_MAX_ENTRIES = 100"

record ('p, 'a) ctl =
  root :: "('p, 'a) ctl_node list"
  first_free :: int

text \<open>
  What a call does when the C code has undefined behaviour or aborts: it does not
  return. \<open>NullDeref\<close> is a read through a NULL pointer, \<open>OutOfBounds\<close> an access
  past the end of an array, \<open>AssertFail\<close> a failed \<^verbatim>\<open>ASSERTeq\<close> of a debug build.
\<close>

datatype fault = NullDeref | OutOfBounds | AssertFail

subsection \<open>The environment: heap accounting and errno\<close>

text \<open>
  \<open>pool\<close> is the state the callbacks work on. \<open>live\<close> holds the addresses of the
  blocks allocated and not yet freed, \<open>brk\<close> is the next fresh address, and \<open>oom\<close>
  decides the coming allocation requests in order (\<open>True\<close>: the request fails; once the
  list is used up every request succeeds).
\<close>

record 'p world =
  pool :: 'p
  live :: "nat list"
  brk :: nat
  oom :: "bool list"
  errno :: int

definition EINVAL :: int where
  "EINVAL = 22"

definition ENOMEM :: int where
  "ENOMEM = 12"

text \<open>
  Modelled from the spec: \<^verbatim>\<open>Malloc\<close>, \<^verbatim>\<open>Strdup\<close> and \<^verbatim>\<open>Free\<close> of \<^verbatim>\<open>util.h\<close> are
  not among the sources. An allocation either fails (NULL, errno ENOMEM) or returns a
  fresh block; \<^verbatim>\<open>Free\<close> releases one.
\<close>

definition alloc_fresh :: "'p world \<Rightarrow> nat option \<times> 'p world" where
  "alloc_fresh w = (Some (brk w), w\<lparr>live := brk w # live w, brk := Suc (brk w)\<rparr>)"

definition Malloc :: "'p world \<Rightarrow> nat option \<times> 'p world" where
  "Malloc w =
     (case oom w of
        [] \<Rightarrow> alloc_fresh w
      | b # bs \<Rightarrow>
          if b then (None, w\<lparr>oom := bs, errno := ENOMEM\<rparr>)
          else alloc_fresh (w\<lparr>oom := bs\<rparr>))"

definition Strdup :: "string \<Rightarrow> 'p world \<Rightarrow> nat option \<times> 'p world" where
  "Strdup s w = Malloc w"

definition Free :: "nat \<Rightarrow> 'p world \<Rightarrow> 'p world" where
  "Free a w = w\<lparr>live := remove1 a (live w)\<rparr>"

subsection \<open>The C library: strtok_r and strtol\<close>

text \<open>
  \<^verbatim>\<open>strtok_r\<close> on the text still to be scanned (the string of the first call, or what
  the save pointer points to): skip the leading delimiters; at the end of the text
  return NULL; otherwise the token runs up to the next delimiter, and the save pointer
  is set past that delimiter (or to the end of the text).
\<close>

definition strtok_r :: "string \<Rightarrow> string \<Rightarrow> string option \<times> string" where
  "strtok_r s delim =
     (let s1 = dropWhile (\<lambda>c. c \<in> set delim) s in
      if s1 = [] then (None, [])
      else (Some (takeWhile (\<lambda>c. c \<notin> set delim) s1),
            drop 1 (dropWhile (\<lambda>c. c \<notin> set delim) s1)))"

definition isspace :: "char \<Rightarrow> bool" where
  "isspace c \<longleftrightarrow> c \<in> set [CHR '' '', CHR 0x09, CHR 0x0A, CHR 0x0B, CHR 0x0C, CHR 0x0D]"

definition digit_val :: "char \<Rightarrow> nat option" where
  "digit_val c =
     (let k = (of_char c :: nat) in
      if 48 \<le> k \<and> k \<le> 57 then Some (k - 48)
      else if 97 \<le> k \<and> k \<le> 122 then Some (k - 87)
      else if 65 \<le> k \<and> k \<le> 90 then Some (k - 55)
      else None)"

definition is_digit :: "nat \<Rightarrow> char \<Rightarrow> bool" where
  "is_digit base c = (case digit_val c of None \<Rightarrow> False | Some d \<Rightarrow> d < base)"

definition digits_value :: "nat \<Rightarrow> string \<Rightarrow> nat" where
  "digits_value base ds =
     foldl (\<lambda>acc c. acc * base + (case digit_val c of None \<Rightarrow> 0 | Some d \<Rightarrow> d)) 0 ds"

definition LONG_MAX :: int where
  "LONG_MAX = 2 ^ 63 - 1"

definition LONG_MIN :: int where
  "LONG_MIN = - (2 ^ 63)"

definition hex_prefix :: "string \<Rightarrow> bool" where
  "hex_prefix s =
     (case s of
        z # x # h # _ \<Rightarrow> z = CHR ''0'' \<and> (x = CHR ''x'' \<or> x = CHR ''X'') \<and> is_digit 16 h
      | _ \<Rightarrow> False)"

text \<open>
  \<^verbatim>\<open>strtol(nptr, &endptr, base)\<close> for base 0 and the bases 2 to 36, with a 64-bit
  \<^verbatim>\<open>long\<close>: white space, an optional sign, the prefix that selects the base, then the
  longest run of digits of that base. The result is the value (clamped to the range of
  \<^verbatim>\<open>long\<close>) and the offset of \<^verbatim>\<open>endptr\<close> from \<^verbatim>\<open>nptr\<close>, which is 0 when there is no
  digit.
\<close>

definition strtol :: "string \<Rightarrow> nat \<Rightarrow> int \<times> nat" where
  "strtol nptr base =
     (let s1 = dropWhile isspace nptr;
          neg = (case s1 of [] \<Rightarrow> False | c # _ \<Rightarrow> c = CHR ''-'');
          s2 = (case s1 of [] \<Rightarrow> s1
                | c # r \<Rightarrow> if c = CHR ''-'' \<or> c = CHR ''+'' then r else s1);
          hex = ((base = 0 \<or> base = 16) \<and> hex_prefix s2);
          b = (if hex then 16
               else if base = 0 then (case s2 of [] \<Rightarrow> 10
                                      | c # _ \<Rightarrow> if c = CHR ''0'' then 8 else 10)
               else base);
          s3 = (if hex then drop 2 s2 else s2);
          ds = takeWhile (is_digit b) s3;
          v = int (digits_value b ds)
      in if ds = [] then (0, 0)
         else (if neg then max LONG_MIN (- v) else min LONG_MAX v,
               length nptr - length s3 + length ds))"

subsection \<open>ctl_query\<close>

text \<open>
  The scan of lines 143 to 148: the node at which the \<^verbatim>\<open>for\<close> loop stops, which is
  the terminating element when nothing matches. An array without a terminating element
  is read past its end.
\<close>

fun ctl_find_node ::
  "('p, 'a) ctl_node list \<Rightarrow> bool \<Rightarrow> string \<Rightarrow> fault + ('p, 'a) ctl_node" where
  "ctl_find_node [] index_entry seg = Inl OutOfBounds"
| "ctl_find_node (n # ns) index_entry seg =
     (case node_name n of
        None \<Rightarrow> Inr n
      | Some nm \<Rightarrow>
          if index_entry \<and> node_type n = CTL_NODE_INDEXED then Inr n
          else if nm = seg then Inr n
          else ctl_find_node ns index_entry seg)"

text \<open>
  Lines 133 to 141: the segment is given to \<^verbatim>\<open>strtol\<close>; when \<^verbatim>\<open>endptr\<close> differs from
  the segment an index entry is allocated, given the value and put at the head of the
  list (its name is not yet assigned). \<open>None\<close> is the jump to the error label after a
  failed allocation; otherwise the flag tells whether \<^verbatim>\<open>index_entry\<close> is non-NULL.
\<close>

definition ctl_new_index ::
  "string \<Rightarrow> (nat \<times> ctl_index) list \<Rightarrow> 'p world \<Rightarrow>
   (bool \<times> (nat \<times> ctl_index) list) option \<times> 'p world" where
  "ctl_new_index seg indexes w =
     (case strtol seg 0 of
        (index_value, endptr) \<Rightarrow>
          if endptr \<noteq> 0 then
            (case Malloc w of
               (None, w1) \<Rightarrow> (None, w1)
             | (Some a, w1) \<Rightarrow> (Some (True, (a, Ctl_index None index_value) # indexes), w1))
          else (Some (False, indexes), w))"

text \<open>Line 154: \<^verbatim>\<open>index_entry->name = n->name\<close>, on the entry at the head of the list.\<close>

fun set_index_name ::
  "string option \<Rightarrow> (nat \<times> ctl_index) list \<Rightarrow> (nat \<times> ctl_index) list" where
  "set_index_name nm [] = []"
| "set_index_name nm ((a, e) # es) = (a, Ctl_index nm (idx_value e)) # es"

text \<open>How the \<^verbatim>\<open>while\<close> loop of lines 131 to 158 is left.\<close>

datatype ('p, 'a) walk =
  Fault fault
  | Goto_error
  | Done "('p, 'a) ctl_node option"

lemma strtok_r_shorter: "strtok_r s d = (Some t, r) \<Longrightarrow> length r < length s"
proof -
  assume a: "strtok_r s d = (Some t, r)"
  let ?s1 = "dropWhile (\<lambda>c. c \<in> set d) s"
  from a have ne: "?s1 \<noteq> []" and r: "r = drop 1 (dropWhile (\<lambda>c. c \<notin> set d) ?s1)"
    by (auto simp: strtok_r_def Let_def split: if_splits)
  have "length r \<le> length ?s1 - 1"
    unfolding r using length_dropWhile_le [of "\<lambda>c. c \<notin> set d" ?s1] by simp
  moreover have "length ?s1 \<le> length s"
    by (rule length_dropWhile_le)
  moreover from ne have "0 < length ?s1" by simp
  ultimately show ?thesis by linarith
qed

lemma strtok_r_None: "strtok_r s d = (None, r) \<Longrightarrow> r = []"
  by (auto simp: strtok_r_def Let_def split: if_splits)

lemma strtok_r_measure:
  "length (snd (strtok_r s d)) + (case fst (strtok_r s d) of None \<Rightarrow> 0 | Some _ \<Rightarrow> 1)
   < Suc (length s)"
proof (cases "strtok_r s d")
  case (Pair t r)
  then show ?thesis
    using strtok_r_shorter [of s d _ r] strtok_r_None [of s d r]
    by (cases t) auto
qed

text \<open>
  The loop of lines 131 to 158. \<open>seg\<close> is \<^verbatim>\<open>node_name\<close>, \<open>sptr\<close> the text the save
  pointer of \<^verbatim>\<open>strtok_r\<close> points to, \<open>nodes\<close> and \<open>n\<close> the variables of the source.
\<close>

function ctl_query_walk ::
  "string option \<Rightarrow> string \<Rightarrow> ('p, 'a) ctl_node list option \<Rightarrow> ('p, 'a) ctl_node option \<Rightarrow>
   (nat \<times> ctl_index) list \<Rightarrow> 'p world \<Rightarrow>
   ('p, 'a) walk \<times> (nat \<times> ctl_index) list \<times> 'p world" where
  "ctl_query_walk None sptr nodes n indexes w = (Done n, indexes, w)"
| "ctl_query_walk (Some seg) sptr nodes n indexes w =
     (case ctl_new_index seg indexes w of
        (None, w1) \<Rightarrow> (Goto_error, indexes, w1)
      | (Some (index_entry, indexes1), w1) \<Rightarrow>
          (case nodes of
             None \<Rightarrow> (Fault NullDeref, indexes1, w1)
           | Some arr \<Rightarrow>
               (case ctl_find_node arr index_entry seg of
                  Inl f \<Rightarrow> (Fault f, indexes1, w1)
                | Inr n1 \<Rightarrow>
                    (case node_name n1 of
                       None \<Rightarrow> (Goto_error, indexes1, w1\<lparr>errno := EINVAL\<rparr>)
                     | Some nm \<Rightarrow>
                         ctl_query_walk (fst (strtok_r sptr ''.'')) (snd (strtok_r sptr ''.''))
                           (children n1) (Some n1)
                           (if index_entry then set_index_name (Some nm) indexes1 else indexes1)
                           w1))))"
  by pat_completeness auto
termination
  by (relation "measure (\<lambda>(seg, sptr, nodes, n, indexes, w).
                  length sptr + (case seg of None \<Rightarrow> 0 | Some _ \<Rightarrow> 1))")
     (simp_all add: strtok_r_measure case_prod_beta)

text \<open>
  Lines 182 to 186: every entry of the list is taken off its head and freed.
\<close>

fun free_indexes :: "(nat \<times> ctl_index) list \<Rightarrow> 'p world \<Rightarrow> 'p world" where
  "free_indexes [] w = w"
| "free_indexes ((a, e) # es) w = free_indexes es (Free a w)"

text \<open>The code from the label \<^verbatim>\<open>error_invalid_arguments\<close> on (lines 181 to 188).\<close>

definition ctl_query_cleanup ::
  "nat \<Rightarrow> (nat \<times> ctl_index) list \<Rightarrow> 'p world \<Rightarrow> 'p world" where
  "ctl_query_cleanup parse_str indexes w = Free parse_str (free_indexes indexes w)"

text \<open>
  A callback called on the pool of the world, with the list of index entries (the
  contents of the list \<^verbatim>\<open>indexes\<close>, head first).
\<close>

definition call_cb ::
  "('p, 'a) node_callback \<Rightarrow> ctl_query_type \<Rightarrow> 'a \<Rightarrow> ctl_index list \<Rightarrow>
   'p world \<Rightarrow> int \<times> 'p world" where
  "call_cb cb type arg indexes w =
     (case cb (pool w) type arg indexes of (ret, p) \<Rightarrow> (ret, w\<lparr>pool := p\<rparr>))"

text \<open>
  Lines 173 to 179: \<^verbatim>\<open>ret = 0\<close>, then the read callback when \<^verbatim>\<open>read_arg\<close> is non-NULL,
  then the write callback when \<^verbatim>\<open>write_arg\<close> is non-NULL and \<^verbatim>\<open>ret\<close> is 0. The check
  of lines 164 to 169 has made sure that the callbacks called are non-NULL; a NULL
  callback called here would be a fault.
\<close>

definition ctl_query_dispatch ::
  "('p, 'a) ctl_node \<Rightarrow> ctl_query_type \<Rightarrow> 'a option \<Rightarrow> 'a option \<Rightarrow>
   ctl_index list \<Rightarrow> 'p world \<Rightarrow> (fault + int) \<times> 'p world" where
  "ctl_query_dispatch n type read_arg write_arg indexes w =
     (case (case read_arg of
              None \<Rightarrow> (Inr 0, w)
            | Some ra \<Rightarrow>
                (case read_cb n of
                   None \<Rightarrow> (Inl NullDeref, w)
                 | Some cb \<Rightarrow> (case call_cb cb type ra indexes w of (r, w1) \<Rightarrow> (Inr r, w1)))) of
        (Inl f, w1) \<Rightarrow> (Inl f, w1)
      | (Inr ret, w1) \<Rightarrow>
          (case write_arg of
             None \<Rightarrow> (Inr ret, w1)
           | Some wa \<Rightarrow>
               if ret = 0 then
                 (case write_cb n of
                    None \<Rightarrow> (Inl NullDeref, w1)
                  | Some cb \<Rightarrow> (case call_cb cb type wa indexes w1 of (r, w2) \<Rightarrow> (Inr r, w2)))
               else (Inr ret, w1)))"

text \<open>The condition of lines 164 to 166, for a non-NULL \<open>n\<close>.\<close>

definition invalid_call :: "('p, 'a) ctl_node \<Rightarrow> 'a option \<Rightarrow> 'a option \<Rightarrow> bool" where
  "invalid_call n read_arg write_arg \<longleftrightarrow>
     (read_arg \<noteq> None \<and> read_cb n = None) \<or>
     (write_arg \<noteq> None \<and> write_cb n = None) \<or>
     (write_arg = None \<and> read_arg = None)"

text \<open>
  Lines 160 to 191, after the loop has ended with \<open>n\<close>. The macro \<^verbatim>\<open>ASSERTeq\<close> of
  \<^verbatim>\<open>out.h\<close> is not among the sources: \<open>dbg\<close> tells whether the build evaluates it
  (a debug build, where a failed assertion ends the process) or discards it.
\<close>

definition ctl_query_finish ::
  "bool \<Rightarrow> ctl_query_type \<Rightarrow> 'a option \<Rightarrow> 'a option \<Rightarrow> nat \<Rightarrow>
   ('p, 'a) ctl_node option \<Rightarrow> (nat \<times> ctl_index) list \<Rightarrow> 'p world \<Rightarrow>
   (fault + int) \<times> 'p world" where
  "ctl_query_finish dbg type read_arg write_arg parse_str n indexes w =
     (case n of
        None \<Rightarrow> (Inr (- 1), ctl_query_cleanup parse_str indexes (w\<lparr>errno := EINVAL\<rparr>))
      | Some nd \<Rightarrow>
          if invalid_call nd read_arg write_arg
          then (Inr (- 1), ctl_query_cleanup parse_str indexes (w\<lparr>errno := EINVAL\<rparr>))
          else if dbg \<and> node_type nd \<noteq> CTL_NODE_LEAF then (Inl AssertFail, w)
          else
            (case ctl_query_dispatch nd type read_arg write_arg (map snd indexes) w of
               (Inl f, w1) \<Rightarrow> (Inl f, w1)
             | (Inr ret, w1) \<Rightarrow> (Inr ret, ctl_query_cleanup parse_str indexes w1)))"

text \<open>
  \<^verbatim>\<open>ctl_query\<close> (lines 103 to 192). \<open>nodes\<close> is \<^verbatim>\<open>pop->ctl->root\<close>. The result is
  \<open>Inr ret\<close> when the call returns \<open>ret\<close>, and \<open>Inl\<close> a fault when it does not
  return.
\<close>

definition ctl_query ::
  "bool \<Rightarrow> ('p, 'a) ctl_node list \<Rightarrow> ctl_query_type \<Rightarrow> string \<Rightarrow> 'a option \<Rightarrow> 'a option \<Rightarrow>
   'p world \<Rightarrow> (fault + int) \<times> 'p world" where
  "ctl_query dbg nodes type name read_arg write_arg w =
     (case Strdup name w of
        (None, w0) \<Rightarrow> (Inr (- 1), w0)
      | (Some parse_str, w0) \<Rightarrow>
          (case ctl_query_walk (fst (strtok_r name ''.'')) (snd (strtok_r name ''.''))
                  (Some nodes) None [] w0 of
             (Fault f, indexes, w1) \<Rightarrow> (Inl f, w1)
           | (Goto_error, indexes, w1) \<Rightarrow> (Inr (- 1), ctl_query_cleanup parse_str indexes w1)
           | (Done n, indexes, w1) \<Rightarrow>
               ctl_query_finish dbg type read_arg write_arg parse_str n indexes w1))"

text \<open>\<^verbatim>\<open>pmemobj_ctl\<close> (lines 197 to 202).\<close>

definition pmemobj_ctl ::
  "bool \<Rightarrow> ('p, 'a) ctl_node list \<Rightarrow> string \<Rightarrow> 'a option \<Rightarrow> 'a option \<Rightarrow>
   'p world \<Rightarrow> (fault + int) \<times> 'p world" where
  "pmemobj_ctl dbg nodes name read_arg write_arg w =
     ctl_query dbg nodes CTL_QUERY_PROGRAMMATIC name read_arg write_arg w"

subsection \<open>Registration\<close>

text \<open>
  \<^verbatim>\<open>ctl_new\<close> (lines 340 to 347): the structure is zero-filled, so every element of
  \<^verbatim>\<open>root\<close> is a terminating element. The result of \<^verbatim>\<open>Zalloc\<close> is not checked.
\<close>

definition ctl_new :: "'p world \<Rightarrow> fault + (('p, 'a) ctl \<times> 'p world)" where
  "ctl_new w =
     (case Malloc w of
        (None, w1) \<Rightarrow> Inl NullDeref
      | (Some c, w1) \<Rightarrow>
          Inr (\<lparr>root = replicate (nat CTL_MAX_ENTRIES) CTL_NODE_END, first_free = 0\<rparr>, w1))"

text \<open>
  \<^verbatim>\<open>ctl_register_module_node\<close> (lines 207 to 214). The function returns nothing and
  compares \<^verbatim>\<open>first_free\<close> with nothing: a store outside \<^verbatim>\<open>root\<close> is a fault. The
  callbacks of the element are left as they are; the name is the result of \<^verbatim>\<open>Strdup\<close>.
\<close>

definition ctl_register_module_node ::
  "('p, 'a) ctl \<Rightarrow> string \<Rightarrow> ('p, 'a) ctl_node list option \<Rightarrow> 'p world \<Rightarrow>
   fault + (('p, 'a) ctl \<times> 'p world)" where
  "ctl_register_module_node c name n w =
     (let i = first_free c in
      if i < 0 \<or> int (length (root c)) \<le> i then Inl OutOfBounds
      else
        (case Strdup name w of
           (a, w1) \<Rightarrow>
             Inr (c\<lparr>root := (root c)[nat i :=
                        Ctl_node (case a of None \<Rightarrow> None | Some _ \<Rightarrow> Some name) CTL_NODE_NAMED
                          (read_cb (root c ! nat i)) (write_cb (root c ! nat i)) n],
                    first_free := i + 1\<rparr>, w1)))"

subsection \<open>Query providers and the configuration loader\<close>

record ctl_query_config =
  q_name :: "string option"
  q_value :: "string option"

text \<open>
  Modelled from the spec: \<^verbatim>\<open>struct ctl_query_provider\<close> of \<^verbatim>\<open>ctl.h\<close> is not among the
  sources. It holds the two methods \<^verbatim>\<open>first\<close> and \<^verbatim>\<open>next\<close>; \<open>'s\<close> is the state of
  the provider object the methods work on.
\<close>

record 's ctl_query_provider =
  provider_first :: "'s \<Rightarrow> ctl_query_config \<Rightarrow> int \<times> ctl_query_config \<times> 's"
  provider_next :: "'s \<Rightarrow> ctl_query_config \<Rightarrow> int \<times> ctl_query_config \<times> 's"

text \<open>
  The string provider: \<open>sp_buf\<close> is the whole text (\<^verbatim>\<open>buf\<close>), \<open>sp_sptr\<close> what the save pointer of
  \<^verbatim>\<open>strtok_r\<close> points to.
\<close>

record ctl_string_provider =
  sp_buf :: string
  sp_sptr :: string

text \<open>\<^verbatim>\<open>ctl_string_provider_parse_query\<close> (lines 247 to 268).\<close>

definition ctl_string_provider_parse_query ::
  "string option \<Rightarrow> ctl_query_config \<Rightarrow> int \<times> ctl_query_config" where
  "ctl_string_provider_parse_query qbuf q =
     (case qbuf of
        None \<Rightarrow> (1, q)
      | Some b \<Rightarrow>
          (case strtok_r b ''='' of
             (None, s1) \<Rightarrow> (- 1, q\<lparr>q_name := None\<rparr>)
           | (Some nm, s1) \<Rightarrow>
               (case strtok_r s1 ''='' of
                  (None, s2) \<Rightarrow> (- 1, q\<lparr>q_name := Some nm, q_value := None\<rparr>)
                | (Some v, s2) \<Rightarrow>
                    (case strtok_r s2 ''='' of
                       (None, s3) \<Rightarrow> (0, q\<lparr>q_name := Some nm, q_value := Some v\<rparr>)
                     | (Some extra, s3) \<Rightarrow> (- 1, q\<lparr>q_name := Some nm, q_value := Some v\<rparr>)))))"

text \<open>\<^verbatim>\<open>ctl_string_provider_first\<close> and \<^verbatim>\<open>ctl_string_provider_next\<close> (lines 274 to 298).\<close>

definition ctl_string_provider_first ::
  "ctl_string_provider \<Rightarrow> ctl_query_config \<Rightarrow> int \<times> ctl_query_config \<times> ctl_string_provider" where
  "ctl_string_provider_first sp q =
     (case strtok_r (sp_buf sp) '';'' of
        (qbuf, s) \<Rightarrow>
          (case ctl_string_provider_parse_query qbuf q of (r, q1) \<Rightarrow> (r, q1, sp\<lparr>sp_sptr := s\<rparr>)))"

definition ctl_string_provider_next ::
  "ctl_string_provider \<Rightarrow> ctl_query_config \<Rightarrow> int \<times> ctl_query_config \<times> ctl_string_provider" where
  "ctl_string_provider_next sp q =
     (case strtok_r (sp_sptr sp) '';'' of
        (qbuf, s) \<Rightarrow>
          (case ctl_string_provider_parse_query qbuf q of (r, q1) \<Rightarrow> (r, q1, sp\<lparr>sp_sptr := s\<rparr>)))"

text \<open>
  The provider object \<^verbatim>\<open>ctl_string_provider_new\<close> sets up (lines 312 to 314): the two
  methods, and the copy of the text.
\<close>

definition string_provider :: "ctl_string_provider ctl_query_provider" where
  "string_provider =
     \<lparr>provider_first = ctl_string_provider_first, provider_next = ctl_string_provider_next\<rparr>"

definition ctl_string_provider_new :: "string \<Rightarrow> ctl_string_provider" where
  "ctl_string_provider_new text = \<lparr>sp_buf = text, sp_sptr = []\<rparr>"

text \<open>
  \<^verbatim>\<open>ctl_exec_query_config\<close> (lines 219 to 223): a query with no read argument and the
  value as the write argument. A NULL name would be read by \<^verbatim>\<open>Strdup\<close>.
\<close>

definition ctl_exec_query_config ::
  "bool \<Rightarrow> ('p, string) ctl_node list \<Rightarrow> ctl_query_config \<Rightarrow> 'p world \<Rightarrow>
   (fault + int) \<times> 'p world" where
  "ctl_exec_query_config dbg nodes q w =
     (case q_name q of
        None \<Rightarrow> (Inl NullDeref, w)
      | Some nm \<Rightarrow> ctl_query dbg nodes CTL_QUERY_CONFIG_INPUT nm None (q_value q) w)"

text \<open>
  The \<^verbatim>\<open>for\<close> loop of \<^verbatim>\<open>ctl_load_config\<close> (lines 235 to 237), entered with the result
  \<open>r\<close> of \<^verbatim>\<open>first\<close> or \<^verbatim>\<open>next\<close>; its value is the \<open>r\<close> the loop is left with. A
  provider that never stops yielding pairs keeps the loop running: then the value is
  \<open>None\<close>.
\<close>

partial_function (option) ctl_load_loop ::
  "bool \<Rightarrow> ('p, string) ctl_node list \<Rightarrow> 's ctl_query_provider \<Rightarrow> int \<Rightarrow> ctl_query_config \<Rightarrow>
   's \<Rightarrow> 'p world \<Rightarrow> ((fault + int) \<times> 's \<times> 'p world) option" where
  "ctl_load_loop dbg nodes p r q s w =
     (if r = 0 then
        (case ctl_exec_query_config dbg nodes q w of
           (Inl f, w1) \<Rightarrow> Some (Inl f, s, w1)
         | (Inr r1, w1) \<Rightarrow>
             if r1 \<noteq> 0 then Some (Inr r1, s, w1)
             else (case provider_next p s q of
                     (r2, q2, s2) \<Rightarrow> ctl_load_loop dbg nodes p r2 q2 s2 w1))
      else Some (Inr r, s, w))"

text \<open>\<^verbatim>\<open>ctl_load_config\<close> (lines 228 to 241).\<close>

definition ctl_load_config ::
  "bool \<Rightarrow> ('p, string) ctl_node list \<Rightarrow> 's ctl_query_provider \<Rightarrow> 's \<Rightarrow> 'p world \<Rightarrow>
   ((fault + int) \<times> 's \<times> 'p world) option" where
  "ctl_load_config dbg nodes p s w =
     (case provider_first p s \<lparr>q_name = None, q_value = None\<rparr> of
        (r0, q, s1) \<Rightarrow>
          (case ctl_load_loop dbg nodes p r0 q s1 w of
             None \<Rightarrow> None
           | Some (Inl f, s2, w2) \<Rightarrow> Some (Inl f, s2, w2)
           | Some (Inr r, s2, w2) \<Rightarrow> Some (Inr (if r \<ge> 0 then 0 else - 1), s2, w2)))"

subsection \<open>Notions the properties are stated with\<close>

text \<open>
  The tokens \<^verbatim>\<open>strtok_r\<close> yields one after the other, from the token \<open>tok\<close> it has
  just returned and the text \<open>rest\<close> its save pointer points to.
\<close>

function tokens_from :: "string \<Rightarrow> string option \<Rightarrow> string \<Rightarrow> string list" where
  "tokens_from delim None rest = []"
| "tokens_from delim (Some tok) rest =
     tok # tokens_from delim (fst (strtok_r rest delim)) (snd (strtok_r rest delim))"
  by pat_completeness auto
termination
  by (relation "measure (\<lambda>(delim, tok, rest).
                  length rest + (case tok of None \<Rightarrow> 0 | Some _ \<Rightarrow> 1))")
     (simp_all add: strtok_r_measure case_prod_beta)

text \<open>All the tokens of a text: what repeated calls of \<^verbatim>\<open>strtok_r\<close> yield.\<close>

definition strtok_all :: "string \<Rightarrow> string \<Rightarrow> string list" where
  "strtok_all s delim = tokens_from delim (fst (strtok_r s delim)) (snd (strtok_r s delim))"

text \<open>The segments of a path: the tokens the loop of \<^verbatim>\<open>ctl_query\<close> goes through.\<close>

definition path_segments :: "string \<Rightarrow> string list" where
  "path_segments name = strtok_all name ''.''"

text \<open>A segment for which line 135 finds \<^verbatim>\<open>endptr != node_name\<close>.\<close>

definition is_index_segment :: "string \<Rightarrow> bool" where
  "is_index_segment seg \<longleftrightarrow> snd (strtol seg 0) \<noteq> 0"

text \<open>
  The nodes the segments match, level by level, each found by the scan of the source
  in the children of the one before; \<open>None\<close> when some segment matches nothing.
\<close>

fun matched_nodes ::
  "string list \<Rightarrow> ('p, 'a) ctl_node list option \<Rightarrow> ('p, 'a) ctl_node list option" where
  "matched_nodes [] nodes = Some []"
| "matched_nodes (seg # segs) nodes =
     (case nodes of
        None \<Rightarrow> None
      | Some arr \<Rightarrow>
          (case ctl_find_node arr (is_index_segment seg) seg of
             Inl f \<Rightarrow> None
           | Inr m \<Rightarrow>
               (case node_name m of
                  None \<Rightarrow> None
                | Some nm \<Rightarrow>
                    (case matched_nodes segs (children m) of
                       None \<Rightarrow> None
                     | Some ms \<Rightarrow> Some (m # ms)))))"

text \<open>
  One entry for every index segment, outermost first: the value \<^verbatim>\<open>strtol\<close> gives for
  the segment, with the name of the node the segment matched.
\<close>

definition index_entries :: "(string \<times> ('p, 'a) ctl_node) list \<Rightarrow> ctl_index list" where
  "index_entries sm =
     map (\<lambda>(seg, m). Ctl_index (node_name m) (fst (strtol seg 0)))
       (filter (\<lambda>(seg, m). is_index_segment seg) sm)"

subsection \<open>Examples\<close>

text \<open>
  The tree of the scenario: the root holds the Named node heap, whose child is the
  Indexed node arena, whose child is the Leaf size with the given callbacks.
\<close>

definition size_leaf ::
  "('p, 'a) node_callback option \<Rightarrow> ('p, 'a) node_callback option \<Rightarrow> ('p, 'a) ctl_node" where
  "size_leaf rcb wcb = Ctl_node (Some ''size'') CTL_NODE_LEAF rcb wcb None"

definition arena_node ::
  "('p, 'a) node_callback option \<Rightarrow> ('p, 'a) node_callback option \<Rightarrow> ('p, 'a) ctl_node" where
  "arena_node rcb wcb =
     Ctl_node (Some ''arena'') CTL_NODE_INDEXED None None (Some [size_leaf rcb wcb, CTL_NODE_END])"

definition heap_node ::
  "('p, 'a) node_callback option \<Rightarrow> ('p, 'a) node_callback option \<Rightarrow> ('p, 'a) ctl_node" where
  "heap_node rcb wcb =
     Ctl_node (Some ''heap'') CTL_NODE_NAMED None None (Some [arena_node rcb wcb, CTL_NODE_END])"

definition heap_tree ::
  "('p, 'a) node_callback option \<Rightarrow> ('p, 'a) node_callback option \<Rightarrow> ('p, 'a) ctl_node list" where
  "heap_tree rcb wcb = [heap_node rcb wcb, CTL_NODE_END]"

text \<open>
  A callback that records its call (a tag, the argument and the index list it was
  handed) at the end of the pool, and returns the given status.
\<close>

definition log_cb ::
  "string \<Rightarrow> int \<Rightarrow> ((string \<times> string \<times> ctl_index list) list, string) node_callback" where
  "log_cb tag ret p type arg indexes = (ret, p @ [(tag, arg, indexes)])"

text \<open>A world with one block allocated before the call, where no allocation fails.\<close>

definition world0 :: "'p \<Rightarrow> 'p world" where
  "world0 p = \<lparr>pool = p, live = [5], brk = 6, oom = [], errno = 0\<rparr>"

text \<open>
  A tree in which a child is named like a number: the root holds the Leaf 7 and,
  after it, the Indexed node arena.
\<close>

definition numbered_nodes ::
  "((string \<times> string \<times> ctl_index list) list, string) ctl_node list" where
  "numbered_nodes =
     [Ctl_node (Some ''7'') CTL_NODE_LEAF (Some (log_cb ''seven'' 0)) None None,
      arena_node (Some (log_cb ''size'' 0)) None,
      CTL_NODE_END]"

subsection \<open>The dispatch contract, in the words of the specification\<close>

text \<open>
  The contract of the dispatch as the specification words it, on the pool: (a) if a
  read argument is present, the read callback is invoked and its result code captured;
  (b) if a write argument is present and the read step did not fail, the write callback
  is invoked. The overall result is 0 when every invoked callback returned 0, and the
  first nonzero code otherwise.
\<close>

definition spec_dispatch ::
  "('p, 'a) node_callback \<Rightarrow> ('p, 'a) node_callback \<Rightarrow> ctl_query_type \<Rightarrow>
   'a option \<Rightarrow> 'a option \<Rightarrow> ctl_index list \<Rightarrow> 'p \<Rightarrow> int \<times> 'p" where
  "spec_dispatch rcb wcb type ra wa idx p =
     (let rd = (case ra of None \<Rightarrow> None | Some a \<Rightarrow> Some (rcb p type a idx));
          p1 = (case rd of None \<Rightarrow> p | Some (r, q) \<Rightarrow> q);
          read_failed = (case rd of None \<Rightarrow> False | Some (r, q) \<Rightarrow> r \<noteq> 0);
          wr = (case wa of
                  None \<Rightarrow> None
                | Some b \<Rightarrow> if read_failed then None else Some (wcb p1 type b idx));
          p2 = (case wr of None \<Rightarrow> p1 | Some (r, q) \<Rightarrow> q);
          codes = (case rd of None \<Rightarrow> [] | Some (r, q) \<Rightarrow> [r]) @
                  (case wr of None \<Rightarrow> [] | Some (r, q) \<Rightarrow> [r])
      in (case List.find (\<lambda>c. c \<noteq> 0) codes of None \<Rightarrow> 0 | Some c \<Rightarrow> c, p2))"

subsection \<open>Segments that begin with a number\<close>

text \<open>
  A segment begins with a number when, after its leading white space and one optional
  sign, it goes on with a decimal digit.
\<close>

definition begins_with_number :: "string \<Rightarrow> bool" where
  "begins_with_number seg =
     (case dropWhile isspace seg of
        [] \<Rightarrow> False
      | c # r \<Rightarrow>
          (case (if c = CHR ''-'' \<or> c = CHR ''+'' then r else c # r) of
             [] \<Rightarrow> False
           | d # _ \<Rightarrow> is_digit 10 d))"

subsection \<open>The loader, in terms of the entries of the text\<close>

text \<open>
  What loading a list of entries does: the entries are taken from left to right; an
  entry that does not split at \<^verbatim>\<open>=\<close> into exactly a name and a value ends the load with
  -1; otherwise the value is written to the name by one query with no read argument,
  and a nonzero result of that query ends the load, with -1 when the result is
  negative; when no entry is left the load ends with 0.
\<close>

fun spec_load ::
  "bool \<Rightarrow> ('p, string) ctl_node list \<Rightarrow> string list \<Rightarrow> 'p world \<Rightarrow> (fault + int) \<times> 'p world" where
  "spec_load dbg nodes [] w = (Inr 0, w)"
| "spec_load dbg nodes (e # es) w =
     (case strtok_all e ''='' of
        [nm, v] \<Rightarrow>
          (case ctl_query dbg nodes CTL_QUERY_CONFIG_INPUT nm None (Some v) w of
             (Inl f, w1) \<Rightarrow> (Inl f, w1)
           | (Inr r, w1) \<Rightarrow>
               if r = 0 then spec_load dbg nodes es w1
               else (Inr (if r < 0 then - 1 else 0), w1))
      | _ \<Rightarrow> (Inr (- 1), w))"

text \<open>
  A tree for the text \<^verbatim>\<open>a.0.b=1;c=2\<close>: the root holds the Named node a, whose child is
  an Indexed node n with the Leaf b, and the Leaf c; both leaves have a write callback
  that returns the given status.
\<close>

definition config_tree ::
  "int \<Rightarrow> int \<Rightarrow> ((string \<times> string \<times> ctl_index list) list, string) ctl_node list" where
  "config_tree rb rc =
     [Ctl_node (Some ''a'') CTL_NODE_NAMED None None (Some
        [Ctl_node (Some ''n'') CTL_NODE_INDEXED None None (Some
           [Ctl_node (Some ''b'') CTL_NODE_LEAF None (Some (log_cb ''b'' rb)) None, CTL_NODE_END]),
         CTL_NODE_END]),
      Ctl_node (Some ''c'') CTL_NODE_LEAF None (Some (log_cb ''c'' rc)) None,
      CTL_NODE_END]"

text \<open>
  Two states of the root array: every element registered, and every element but the
  last registered.
\<close>

definition module_node :: "(unit, unit) ctl_node" where
  "module_node = Ctl_node (Some ''m'') CTL_NODE_NAMED None None None"

definition full_ctl :: "(unit, unit) ctl" where
  "full_ctl = \<lparr>root = replicate 100 module_node, first_free = 100\<rparr>"

definition almost_full_ctl :: "(unit, unit) ctl" where
  "almost_full_ctl = \<lparr>root = replicate 99 module_node @ [CTL_NODE_END], first_free = 99\<rparr>"

section \<open>Properties\<close>

subsection \<open>The heap and the pool along a query\<close>

lemma Malloc_cases:
  "Malloc w = (r, w1) \<Longrightarrow>
     pool w1 = pool w \<and>
     (case r of None \<Rightarrow> live w1 = live w | Some a \<Rightarrow> live w1 = a # live w)"
  by (auto simp: Malloc_def alloc_fresh_def split: list.splits if_splits)

lemma ctl_new_index_None:
  "ctl_new_index seg indexes w = (None, w1) \<Longrightarrow> live w1 = live w \<and> pool w1 = pool w"
  by (auto simp: ctl_new_index_def split: prod.splits if_splits option.splits dest: Malloc_cases)

lemma ctl_new_index_Some:
  "ctl_new_index seg indexes w = (Some (ie, indexes1), w1) \<Longrightarrow>
     pool w1 = pool w \<and> ie = is_index_segment seg \<and>
     (if ie then \<exists>a. indexes1 = (a, Ctl_index None (fst (strtol seg 0))) # indexes \<and>
                     live w1 = a # live w
      else indexes1 = indexes \<and> w1 = w)"
  by (auto simp: ctl_new_index_def is_index_segment_def
      split: prod.splits if_splits option.splits dest: Malloc_cases)

lemma map_fst_set_index_name [simp]: "map fst (set_index_name nm es) = map fst es"
  by (cases es) auto

lemma walk_live:
  "ctl_query_walk tok rest nodes n indexes w = (res, indexes', w') \<Longrightarrow>
     pool w' = pool w \<and>
     (\<exists>A. map fst indexes' = A @ map fst indexes \<and> live w' = A @ live w)"
proof (induction tok rest nodes n indexes w rule: ctl_query_walk.induct)
  case (1 rest nodes n indexes w)
  then show ?case by simp
next
  case (2 seg rest nodes n indexes w)
  show ?case
  proof (cases "ctl_new_index seg indexes w")
    case (Pair x w1)
    show ?thesis
    proof (cases x)
      case None
      with Pair 2(2) show ?thesis
        using ctl_new_index_None [of seg indexes w w1] by auto
    next
      case (Some y)
      obtain ie indexes1 where y: "y = (ie, indexes1)" by (cases y)
      note ni = ctl_new_index_Some [OF Pair [unfolded Some y]]
      from ni obtain B where B: "map fst indexes1 = B @ map fst indexes" "live w1 = B @ live w"
        by (cases ie) auto
      from ni have p1: "pool w1 = pool w" by simp
      show ?thesis
      proof (cases nodes)
        case None
        with Pair Some y 2(2) B p1 show ?thesis by auto
      next
        case (Some arr)
        note arr = this
        show ?thesis
        proof (cases "ctl_find_node arr ie seg")
          case (Inl f)
          with Pair \<open>x = Some y\<close> y arr 2(2) B p1 show ?thesis by auto
        next
          case (Inr n1)
          show ?thesis
          proof (cases "node_name n1")
            case None
            with Inr Pair \<open>x = Some y\<close> y arr 2(2) B p1 show ?thesis by auto
          next
            case (Some nm)
            let ?idx2 = "if ie then set_index_name (Some nm) indexes1 else indexes1"
            from 2(2) Inr Pair \<open>x = Some y\<close> y arr Some
            have rec: "ctl_query_walk (fst (strtok_r rest ''.'')) (snd (strtok_r rest ''.''))
                    (children n1) (Some n1) ?idx2 w1 = (res, indexes', w')"
              by simp
            from "2.IH" [OF Pair [symmetric] \<open>x = Some y\<close> y [symmetric] arr Inr Some rec]
            obtain A where A: "pool w' = pool w1" "map fst indexes' = A @ map fst ?idx2"
                "live w' = A @ live w1"
              by auto
            have "map fst ?idx2 = map fst indexes1" by simp
            with A B p1 show ?thesis by auto
          qed
        qed
      qed
    qed
  qed
qed

lemma free_indexes_live:
  "live w = map fst es @ L \<Longrightarrow> live (free_indexes es w) = L"
  by (induction es w rule: free_indexes.induct) (auto simp: Free_def)

lemma free_indexes_pool [simp]: "pool (free_indexes es w) = pool w"
  by (induction es w rule: free_indexes.induct) (auto simp: Free_def)

lemma free_indexes_errno [simp]: "errno (free_indexes es w) = errno w"
  by (induction es w rule: free_indexes.induct) (auto simp: Free_def)

lemma cleanup_live:
  "live w = map fst es @ a # L \<Longrightarrow> live (ctl_query_cleanup a es w) = L"
  by (simp add: ctl_query_cleanup_def Free_def free_indexes_live)

lemma cleanup_pool [simp]: "pool (ctl_query_cleanup a es w) = pool w"
  by (simp add: ctl_query_cleanup_def Free_def)

lemma cleanup_errno [simp]: "errno (ctl_query_cleanup a es w) = errno w"
  by (simp add: ctl_query_cleanup_def Free_def)

lemma call_cb_live:
  "call_cb cb type arg idx w = (r, w1) \<Longrightarrow> live w1 = live w \<and> errno w1 = errno w"
  by (auto simp: call_cb_def split: prod.splits)

lemma dispatch_live:
  "ctl_query_dispatch n type ra wa idx w = (res, w1) \<Longrightarrow> live w1 = live w"
  by (auto simp: ctl_query_dispatch_def split: option.splits prod.splits sum.splits if_splits
      dest!: call_cb_live)

lemma finish_live:
  assumes "ctl_query_finish dbg type ra wa a n es w = (Inr r, w')"
    and "live w = map fst es @ a # L"
  shows "live w' = L"
  using assms
  by (auto simp: ctl_query_finish_def split: option.splits if_splits prod.splits sum.splits
      dest!: dispatch_live intro!: cleanup_live)

subsection \<open>C10: nothing allocated by a query survives it\<close>

text \<open>
  C10. Whenever \<^verbatim>\<open>ctl_query\<close> returns, with whatever result (success, an unmatched
  segment, an invalid call, a failed allocation, a failing callback), the blocks that
  are allocated after the call are exactly the blocks that were allocated before it:
  the copy of the path and every index entry have been freed.
\<close>

theorem ctl_query_releases:
  assumes "ctl_query dbg nodes type name ra wa w = (Inr r, w')"
  shows "live w' = live w"
proof (cases "Strdup name w")
  case (Pair a w0)
  show ?thesis
  proof (cases a)
    case None
    with Pair assms have "w' = w0" by (simp add: ctl_query_def)
    moreover from Pair None have "live w0 = live w"
      using Malloc_cases [of w None w0] by (simp add: Strdup_def)
    ultimately show ?thesis by simp
  next
    case (Some parse_str)
    with Pair have l0: "live w0 = parse_str # live w"
      using Malloc_cases [of w "Some parse_str" w0] by (simp add: Strdup_def)
    obtain res es w1 where
      wk: "ctl_query_walk (fst (strtok_r name ''.'')) (snd (strtok_r name ''.''))
             (Some nodes) None [] w0 = (res, es, w1)"
      by (cases "ctl_query_walk (fst (strtok_r name ''.'')) (snd (strtok_r name ''.''))
                  (Some nodes) None [] (w0 :: 'a world)") auto
    from walk_live [OF wk] l0 have l1: "live w1 = map fst es @ parse_str # live w"
      by auto
    show ?thesis
    proof (cases res)
      case (Fault f)
      with assms Pair Some wk show ?thesis by (simp add: ctl_query_def)
    next
      case Goto_error
      with assms Pair Some wk have "w' = ctl_query_cleanup parse_str es w1"
        by (simp add: ctl_query_def)
      with l1 show ?thesis by (simp add: cleanup_live)
    next
      case (Done n)
      with assms Pair Some wk
      have "ctl_query_finish dbg type ra wa parse_str n es w1 = (Inr r, w')"
        by (simp add: ctl_query_def)
      from finish_live [OF this l1] show ?thesis .
    qed
  qed
qed

theorem ctl_query_releases_witness:
  "ctl_query True (heap_tree (Some (log_cb ''r'' 0)) None) CTL_QUERY_PROGRAMMATIC
     ''heap.3.nosuch'' (Some ''x'') None (world0 [])
   = (Inr (- 1), \<lparr>pool = [], live = [5], brk = 8, oom = [], errno = 22\<rparr>)
   \<and> live \<lparr>pool = ([] :: (string \<times> string \<times> ctl_index list) list), live = [5], brk = 8,
            oom = [], errno = 22\<rparr> = live (world0 ([] :: (string \<times> string \<times> ctl_index list) list))"
proof -
  have e: "ctl_query True (heap_tree (Some (log_cb ''r'' 0)) None) CTL_QUERY_PROGRAMMATIC
     ''heap.3.nosuch'' (Some ''x'') None (world0 [])
   = (Inr (- 1), \<lparr>pool = [], live = [5], brk = 8, oom = [], errno = 22\<rparr>)"
    by code_simp
  from ctl_query_releases [OF e] e show ?thesis by simp
qed

subsection \<open>The index list of a resolved path\<close>

lemma matched_nodes_length:
  "matched_nodes segs nodes = Some ms \<Longrightarrow> length ms = length segs"
  by (induction segs nodes arbitrary: ms rule: matched_nodes.induct)
     (auto split: option.splits sum.splits)

lemma index_entries_Cons:
  "index_entries ((seg, m) # sm) =
     (if is_index_segment seg then [Ctl_index (node_name m) (fst (strtol seg 0))] else [])
     @ index_entries sm"
  by (simp add: index_entries_def)

lemma index_entries_length:
  "length ms = length segs \<Longrightarrow>
     length (index_entries (zip segs ms)) = length (filter is_index_segment segs)"
proof (induction segs arbitrary: ms)
  case Nil
  then show ?case by (simp add: index_entries_def)
next
  case (Cons s segs)
  then obtain m ms' where "ms = m # ms'" by (cases ms) auto
  with Cons show ?case by (simp add: index_entries_Cons)
qed

lemma walk_indexes:
  "ctl_query_walk tok rest nodes n indexes w = (Done n', indexes', w') \<Longrightarrow>
     \<exists>ms. matched_nodes (tokens_from ''.'' tok rest) nodes = Some ms \<and>
          map snd indexes' =
            rev (index_entries (zip (tokens_from ''.'' tok rest) ms)) @ map snd indexes \<and>
          n' = (if ms = [] then n else Some (last ms))"
proof (induction tok rest nodes n indexes w rule: ctl_query_walk.induct)
  case (1 rest nodes n indexes w)
  then show ?case by (simp add: index_entries_def)
next
  case (2 seg rest nodes n indexes w)
  obtain x w1 where Pair: "ctl_new_index seg indexes w = (x, w1)"
    by (cases "ctl_new_index seg indexes w")
  from 2(2) Pair obtain y where xy: "x = Some y" by (cases x) auto
  obtain ie indexes1 where y: "y = (ie, indexes1)" by (cases y)
  note ni = ctl_new_index_Some [OF Pair [unfolded xy y]]
  from 2(2) Pair xy y obtain arr where arr: "nodes = Some arr" by (cases nodes) auto
  from 2(2) Pair xy y arr obtain n1 where n1: "ctl_find_node arr ie seg = Inr n1"
    by (cases "ctl_find_node arr ie seg") auto
  from 2(2) Pair xy y arr n1 obtain nm where nm: "node_name n1 = Some nm"
    by (cases "node_name n1") auto
  let ?idx2 = "if ie then set_index_name (Some nm) indexes1 else indexes1"
  let ?tok = "fst (strtok_r rest ''.'')" and ?rest = "snd (strtok_r rest ''.'')"
  from 2(2) Pair xy y arr n1 nm
  have rec: "ctl_query_walk ?tok ?rest (children n1) (Some n1) ?idx2 w1 = (Done n', indexes', w')"
    by simp
  from "2.IH" [OF Pair [symmetric] xy y [symmetric] arr n1 nm rec]
  obtain ms where ms: "matched_nodes (tokens_from ''.'' ?tok ?rest) (children n1) = Some ms"
    "map snd indexes' =
       rev (index_entries (zip (tokens_from ''.'' ?tok ?rest) ms)) @ map snd ?idx2"
    "n' = (if ms = [] then Some n1 else Some (last ms))"
    by auto
  from ni have ie: "ie = is_index_segment seg" by simp
  have idx2: "map snd ?idx2 =
      (if is_index_segment seg then [Ctl_index (node_name n1) (fst (strtol seg 0))] else [])
      @ map snd indexes"
    using ni nm ie by (cases ie) auto
  have m: "matched_nodes (tokens_from ''.'' (Some seg) rest) nodes = Some (n1 # ms)"
    using arr n1 nm ms(1) ie by simp
  have "map snd indexes' =
      rev (index_entries (zip (tokens_from ''.'' (Some seg) rest) (n1 # ms))) @ map snd indexes"
    using ms(2) idx2 by (simp add: index_entries_Cons)
  with m ms(3) show ?case by (intro exI [of _ "n1 # ms"]) simp
qed

lemma Malloc_no_oom:
  "oom w = [] \<Longrightarrow> \<exists>a w1. Malloc w = (Some a, w1) \<and> oom w1 = [] \<and> errno w1 = errno w"
  by (simp add: Malloc_def alloc_fresh_def)

lemma ctl_new_index_no_oom:
  "oom w = [] \<Longrightarrow>
     \<exists>indexes1 w1. ctl_new_index seg indexes w = (Some (is_index_segment seg, indexes1), w1) \<and>
        oom w1 = [] \<and> errno w1 = errno w"
  using Malloc_no_oom [of w]
  by (auto simp: ctl_new_index_def is_index_segment_def split: prod.splits)

lemma walk_total:
  "oom w = [] \<Longrightarrow> matched_nodes (tokens_from ''.'' tok rest) nodes = Some ms \<Longrightarrow>
     \<exists>indexes' w'. ctl_query_walk tok rest nodes n indexes w =
        (Done (if ms = [] then n else Some (last ms)), indexes', w') \<and>
        oom w' = [] \<and> errno w' = errno w"
proof (induction tok rest nodes n indexes w arbitrary: ms rule: ctl_query_walk.induct)
  case (1 rest nodes n indexes w)
  then show ?case by simp
next
  case (2 seg rest nodes n indexes w)
  let ?tok = "fst (strtok_r rest ''.'')" and ?rest = "snd (strtok_r rest ''.'')"
  from ctl_new_index_no_oom [OF 2(2), of seg indexes]
  obtain indexes1 w1 where
    ni: "ctl_new_index seg indexes w = (Some (is_index_segment seg, indexes1), w1)"
    and o1: "oom w1 = []" and e1: "errno w1 = errno w"
    by auto
  from 2(3) obtain arr where arr: "nodes = Some arr" by (cases nodes) auto
  from 2(3) arr obtain n1 where n1: "ctl_find_node arr (is_index_segment seg) seg = Inr n1"
    by (cases "ctl_find_node arr (is_index_segment seg) seg") auto
  from 2(3) arr n1 obtain nm where nm: "node_name n1 = Some nm"
    by (cases "node_name n1") auto
  from 2(3) arr n1 nm obtain ms' where
    ms': "matched_nodes (tokens_from ''.'' ?tok ?rest) (children n1) = Some ms'"
    and ms: "ms = n1 # ms'"
    by (auto split: option.splits)
  from "2.IH" [OF ni [symmetric] refl refl arr n1 nm o1 ms']
  obtain indexes' w' where
    "ctl_query_walk ?tok ?rest (children n1) (Some n1)
        (if is_index_segment seg then set_index_name (Some nm) indexes1 else indexes1) w1 =
        (Done (if ms' = [] then Some n1 else Some (last ms')), indexes', w')"
    "oom w' = []" "errno w' = errno w1"
    by auto
  with ni arr n1 nm ms e1 show ?case by auto
qed

text \<open>
  A query whose segments all match, when no allocation fails: the loop ends at the
  node the last segment matched, with one entry for every index segment, the last
  one first; the rest of \<^verbatim>\<open>ctl_query\<close> runs on that.
\<close>

lemma ctl_query_resolved:
  assumes "oom w = []" and "matched_nodes (path_segments name) (Some nodes) = Some ms"
  shows "\<exists>parse_str indexes w1.
      ctl_query dbg nodes type name ra wa w =
        ctl_query_finish dbg type ra wa parse_str
          (if ms = [] then None else Some (last ms)) indexes w1 \<and>
      map snd indexes = rev (index_entries (zip (path_segments name) ms)) \<and>
      live w1 = map fst indexes @ parse_str # live w \<and> pool w1 = pool w \<and> errno w1 = errno w"
proof -
  let ?tok = "fst (strtok_r name ''.'')" and ?rest = "snd (strtok_r name ''.'')"
  from Malloc_no_oom [OF assms(1)] obtain a w0 where
    sd: "Strdup name w = (Some a, w0)" and o0: "oom w0 = []" and e0: "errno w0 = errno w"
    by (auto simp: Strdup_def)
  from sd have l0: "live w0 = a # live w" and p0: "pool w0 = pool w"
    using Malloc_cases [of w "Some a" w0] by (simp_all add: Strdup_def)
  from assms(2) have m: "matched_nodes (tokens_from ''.'' ?tok ?rest) (Some nodes) = Some ms"
    by (simp add: path_segments_def strtok_all_def)
  from walk_total [OF o0 m, of None "[]"] obtain indexes w1 where
    wk: "ctl_query_walk ?tok ?rest (Some nodes) None [] w0 =
          (Done (if ms = [] then None else Some (last ms)), indexes, w1)"
    and e1: "errno w1 = errno w0"
    by auto
  from walk_indexes [OF wk] m
  have idx: "map snd indexes = rev (index_entries (zip (path_segments name) ms))"
    by (auto simp: path_segments_def strtok_all_def)
  from walk_live [OF wk] l0 p0
  have l1: "live w1 = map fst indexes @ a # live w" and p1: "pool w1 = pool w"
    by auto
  have "ctl_query dbg nodes type name ra wa w =
        ctl_query_finish dbg type ra wa a (if ms = [] then None else Some (last ms)) indexes w1"
    using sd wk by (simp add: ctl_query_def)
  with idx l1 p1 e1 e0 show ?thesis
    by (intro exI [of _ a] exI [of _ indexes] exI [of _ w1]) simp
qed

lemma dispatch_pool_only:
  "pool w1 = pool w \<Longrightarrow>
     fst (ctl_query_dispatch n t ra wa idx w1) = fst (ctl_query_dispatch n t ra wa idx w) \<and>
     pool (snd (ctl_query_dispatch n t ra wa idx w1)) =
     pool (snd (ctl_query_dispatch n t ra wa idx w))"
  by (auto simp: ctl_query_dispatch_def call_cb_def split: option.splits prod.splits sum.splits)

lemma dispatch_spec:
  assumes "ra \<noteq> None \<longrightarrow> read_cb n = Some rcb" and "wa \<noteq> None \<longrightarrow> write_cb n = Some wcb"
  shows "ctl_query_dispatch n t ra wa idx w =
     (Inr (fst (spec_dispatch rcb wcb t ra wa idx (pool w))),
      w\<lparr>pool := snd (spec_dispatch rcb wcb t ra wa idx (pool w))\<rparr>)"
  using assms
  by (auto simp: ctl_query_dispatch_def call_cb_def spec_dispatch_def Let_def
      split: option.splits prod.splits sum.splits)

text \<open>Evaluating the model on the examples.\<close>

lemmas eval_defs =
  ctl_query_def Strdup_def Malloc_def alloc_fresh_def Free_def strtok_r_def
  ctl_new_index_def strtol_def isspace_def hex_prefix_def is_digit_def digit_val_def
  digits_value_def LONG_MAX_def LONG_MIN_def CTL_NODE_END_def ctl_query_finish_def
  invalid_call_def ctl_query_dispatch_def call_cb_def ctl_query_cleanup_def
  heap_tree_def heap_node_def arena_node_def size_leaf_def log_cb_def world0_def
  path_segments_def strtok_all_def is_index_segment_def index_entries_def EINVAL_def

lemma heap_3_size_segments: "path_segments ''heap.3.size'' = [''heap'', ''3'', ''size'']"
  by (simp add: path_segments_def strtok_all_def strtok_r_def)

lemma heap_3_size_matched:
  "matched_nodes [''heap'', ''3'', ''size''] (Some (heap_tree rcb wcb)) =
     Some [heap_node rcb wcb, arena_node rcb wcb, size_leaf rcb wcb]"
  by (simp add: eval_defs)

subsection \<open>C1: the index list handed to the callbacks\<close>

text \<open>
  C1, as the code has it. An index segment is a segment at which \<^verbatim>\<open>strtol\<close> consumes
  something. When every segment of the path matches a node, the call is valid for the
  last node matched and no allocation fails, the callbacks are dispatched with a list
  that has exactly one entry for every index segment, the entry of the segment parsed
  last first; an entry holds the value \<^verbatim>\<open>strtol\<close> gave for its segment and the name
  of the node that segment matched. That node is the first child that is Indexed or
  that is named like the segment: it need not be Indexed.
\<close>

theorem ctl_query_index_list:
  assumes "oom w = []"
    and "matched_nodes (path_segments name) (Some nodes) = Some ms"
    and "ms \<noteq> []"
    and "\<not> invalid_call (last ms) ra wa"
    and "dbg \<longrightarrow> node_type (last ms) = CTL_NODE_LEAF"
  shows "length (index_entries (zip (path_segments name) ms)) =
           length (filter is_index_segment (path_segments name)) \<and>
         fst (ctl_query dbg nodes type name ra wa w) =
           fst (ctl_query_dispatch (last ms) type ra wa
                  (rev (index_entries (zip (path_segments name) ms))) w) \<and>
         pool (snd (ctl_query dbg nodes type name ra wa w)) =
           pool (snd (ctl_query_dispatch (last ms) type ra wa
                  (rev (index_entries (zip (path_segments name) ms))) w))"
proof -
  let ?idx = "rev (index_entries (zip (path_segments name) ms))"
  from ctl_query_resolved [OF assms(1,2), of dbg type ra wa] assms(3)
  obtain a indexes w1 where
    q: "ctl_query dbg nodes type name ra wa w =
          ctl_query_finish dbg type ra wa a (Some (last ms)) indexes w1"
    and idx: "map snd indexes = ?idx" and p1: "pool w1 = pool w"
    by auto
  obtain res w2 where d: "ctl_query_dispatch (last ms) type ra wa ?idx w1 = (res, w2)"
    by (cases "ctl_query_dispatch (last ms) type ra wa ?idx w1")
  from q assms(4,5) idx d
  have "fst (ctl_query dbg nodes type name ra wa w) = res \<and>
        pool (snd (ctl_query dbg nodes type name ra wa w)) = pool w2"
    by (cases res) (auto simp: ctl_query_finish_def)
  with dispatch_pool_only [OF p1, of "last ms" type ra wa ?idx] d
  have "fst (ctl_query dbg nodes type name ra wa w) =
          fst (ctl_query_dispatch (last ms) type ra wa ?idx w) \<and>
        pool (snd (ctl_query dbg nodes type name ra wa w)) =
          pool (snd (ctl_query_dispatch (last ms) type ra wa ?idx w))"
    by simp
  moreover from matched_nodes_length [OF assms(2)]
  have "length (index_entries (zip (path_segments name) ms)) =
           length (filter is_index_segment (path_segments name))"
    by (rule index_entries_length)
  ultimately show ?thesis by simp
qed

theorem ctl_query_index_list_witness:
  "oom (world0 ([] :: (string \<times> string \<times> ctl_index list) list)) = [] \<and>
   matched_nodes (path_segments ''heap.3.size'') (Some (heap_tree (Some (log_cb ''r'' 0)) None)) =
     Some [heap_node (Some (log_cb ''r'' 0)) None, arena_node (Some (log_cb ''r'' 0)) None,
           size_leaf (Some (log_cb ''r'' 0)) None] \<and>
   \<not> invalid_call (size_leaf (Some (log_cb ''r'' 0)) None) (Some ''x'') None \<and>
   length (filter is_index_segment (path_segments ''heap.3.size'')) = 1 \<and>
   fst (ctl_query True (heap_tree (Some (log_cb ''r'' 0)) None) CTL_QUERY_PROGRAMMATIC
          ''heap.3.size'' (Some ''x'') None (world0 [])) = Inr 0 \<and>
   pool (snd (ctl_query True (heap_tree (Some (log_cb ''r'' 0)) None) CTL_QUERY_PROGRAMMATIC
          ''heap.3.size'' (Some ''x'') None (world0 []))) =
     [(''r'', ''x'', [Ctl_index (Some ''arena'') 3])]"
proof -
  let ?ms = "[heap_node (Some (log_cb ''r'' 0)) None, arena_node (Some (log_cb ''r'' 0)) None,
              size_leaf (Some (log_cb ''r'' 0)) None]"
  have h1: "oom (world0 ([] :: (string \<times> string \<times> ctl_index list) list)) = []"
    by (simp add: world0_def)
  have h2: "matched_nodes (path_segments ''heap.3.size'')
              (Some (heap_tree (Some (log_cb ''r'' 0)) None)) = Some ?ms"
    by (simp only: heap_3_size_segments heap_3_size_matched)
  have h3: "?ms \<noteq> []" by simp
  have h4: "\<not> invalid_call (last ?ms) (Some ''x'') None"
    by (simp add: invalid_call_def size_leaf_def)
  have h5: "True \<longrightarrow> node_type (last ?ms) = CTL_NODE_LEAF"
    by (simp add: size_leaf_def)
  have k: "length (filter is_index_segment (path_segments ''heap.3.size'')) = 1"
    by (simp add: heap_3_size_segments eval_defs)
  have e: "rev (index_entries (zip (path_segments ''heap.3.size'') ?ms)) =
             [Ctl_index (Some ''arena'') 3]"
    by (simp add: heap_3_size_segments eval_defs)
  note c = ctl_query_index_list [OF h1 h2 h3 h4 h5, of CTL_QUERY_PROGRAMMATIC]
  have d: "ctl_query_dispatch (last ?ms) CTL_QUERY_PROGRAMMATIC (Some ''x'') None
             [Ctl_index (Some ''arena'') 3] (world0 []) =
           (Inr 0, (world0 [])\<lparr>pool := [(''r'', ''x'', [Ctl_index (Some ''arena'') 3])]\<rparr>)"
    by (simp add: ctl_query_dispatch_def call_cb_def size_leaf_def log_cb_def world0_def)
  from c e d h1 h2 h4 k show ?thesis by simp
qed

theorem ctl_query_index_list_counterexample:
  "path_segments ''7'' = [''7''] \<and> is_index_segment ''7'' \<and>
   map (\<lambda>n. (node_name n, node_type n)) numbered_nodes =
     [(Some ''7'', CTL_NODE_LEAF), (Some ''arena'', CTL_NODE_INDEXED), (None, CTL_NODE_UNKNOWN)] \<and>
   ctl_query True numbered_nodes CTL_QUERY_PROGRAMMATIC ''7'' (Some ''x'') None (world0 []) =
     (Inr 0, \<lparr>pool = [(''seven'', ''x'', [Ctl_index (Some ''7'') 7])], live = [5], brk = 8,
              oom = [], errno = 0\<rparr>)"
  by (simp add: eval_defs numbered_nodes_def)


subsection \<open>C2: the query heap.3.size\<close>

text \<open>
  C2. On the tree whose root holds the Named node heap, with the Indexed child arena,
  with the Leaf child size that has a read callback: the query \<^verbatim>\<open>heap.3.size\<close> with a
  read argument and no write argument, when no allocation fails, returns what the read
  callback returns, and the pool after the call is the pool after one call of the read
  callback with the argument and the index list of the one entry (3, arena). Nothing
  else of the world changes but the address counter of the allocator.
\<close>

theorem ctl_query_heap_3_size:
  assumes "oom w = []"
  shows "ctl_query dbg (heap_tree (Some rcb) wcb) type ''heap.3.size'' (Some a) None w =
     (case rcb (pool w) type a [Ctl_index (Some ''arena'') 3] of
        (r, p) \<Rightarrow> (Inr r, w\<lparr>pool := p, brk := brk w + 2\<rparr>))"
  using assms
  by (simp add: ctl_query_def heap_tree_def heap_node_def arena_node_def size_leaf_def
      Strdup_def Malloc_def alloc_fresh_def strtok_r_def ctl_new_index_def strtol_def
      isspace_def hex_prefix_def is_digit_def digit_val_def digits_value_def LONG_MAX_def
      CTL_NODE_END_def ctl_query_finish_def invalid_call_def ctl_query_dispatch_def
      call_cb_def ctl_query_cleanup_def Free_def split: prod.splits)

theorem ctl_query_heap_3_size_witness:
  "oom (world0 ([] :: (string \<times> string \<times> ctl_index list) list)) = [] \<and>
   ctl_query True (heap_tree (Some (log_cb ''size'' 0)) None) CTL_QUERY_PROGRAMMATIC
     ''heap.3.size'' (Some ''x'') None (world0 []) =
   (Inr 0, \<lparr>pool = [(''size'', ''x'', [Ctl_index (Some ''arena'') 3])], live = [5], brk = 8,
            oom = [], errno = 0\<rparr>)"
proof -
  have h: "oom (world0 ([] :: (string \<times> string \<times> ctl_index list) list)) = []"
    by (simp add: world0_def)
  from ctl_query_heap_3_size [OF h, of True "log_cb ''size'' 0" None CTL_QUERY_PROGRAMMATIC "''x''"]
  show ?thesis by (simp add: log_cb_def world0_def)
qed

subsection \<open>C3: the order of the dispatch\<close>

text \<open>
  C3. For a query that resolves (every segment matches, the callbacks the arguments
  ask for are there, no allocation fails): the result of \<^verbatim>\<open>ctl_query\<close> and the pool
  after it are those of the dispatch contract of the specification, run on the pool
  with the index list of the path: the read callback first when there is a read
  argument, then the write callback when there is a write argument and the read step
  returned 0; the result is 0 when every callback invoked returned 0 and the first
  nonzero result otherwise.
\<close>

theorem ctl_query_dispatch_order:
  assumes "oom w = []"
    and "matched_nodes (path_segments name) (Some nodes) = Some ms"
    and "ms \<noteq> []"
    and "dbg \<longrightarrow> node_type (last ms) = CTL_NODE_LEAF"
    and "ra \<noteq> None \<longrightarrow> read_cb (last ms) = Some rcb"
    and "wa \<noteq> None \<longrightarrow> write_cb (last ms) = Some wcb"
    and "ra \<noteq> None \<or> wa \<noteq> None"
  shows "fst (ctl_query dbg nodes type name ra wa w) =
           Inr (fst (spec_dispatch rcb wcb type ra wa
                  (rev (index_entries (zip (path_segments name) ms))) (pool w))) \<and>
         pool (snd (ctl_query dbg nodes type name ra wa w)) =
           snd (spec_dispatch rcb wcb type ra wa
                  (rev (index_entries (zip (path_segments name) ms))) (pool w))"
proof -
  let ?idx = "rev (index_entries (zip (path_segments name) ms))"
  from assms(5-7) have v: "\<not> invalid_call (last ms) ra wa"
    by (auto simp: invalid_call_def)
  from ctl_query_resolved [OF assms(1,2), of dbg type ra wa] assms(3)
  obtain a indexes w1 where
    q: "ctl_query dbg nodes type name ra wa w =
          ctl_query_finish dbg type ra wa a (Some (last ms)) indexes w1"
    and idx: "map snd indexes = ?idx" and p1: "pool w1 = pool w"
    by auto
  from q v assms(4) idx p1 dispatch_spec [OF assms(5,6), of type ?idx w1]
  show ?thesis by (simp add: ctl_query_finish_def)
qed

theorem ctl_query_dispatch_order_witness:
  "oom (world0 ([] :: (string \<times> string \<times> ctl_index list) list)) = [] \<and>
   matched_nodes (path_segments ''heap.3.size'')
     (Some (heap_tree (Some (log_cb ''r'' 0)) (Some (log_cb ''w'' 7)))) =
     Some [heap_node (Some (log_cb ''r'' 0)) (Some (log_cb ''w'' 7)),
           arena_node (Some (log_cb ''r'' 0)) (Some (log_cb ''w'' 7)),
           size_leaf (Some (log_cb ''r'' 0)) (Some (log_cb ''w'' 7))] \<and>
   node_type (size_leaf (Some (log_cb ''r'' 0)) (Some (log_cb ''w'' 7))) = CTL_NODE_LEAF \<and>
   read_cb (size_leaf (Some (log_cb ''r'' 0)) (Some (log_cb ''w'' 7))) = Some (log_cb ''r'' 0) \<and>
   write_cb (size_leaf (Some (log_cb ''r'' 0)) (Some (log_cb ''w'' 7))) = Some (log_cb ''w'' 7) \<and>
   fst (ctl_query True (heap_tree (Some (log_cb ''r'' 0)) (Some (log_cb ''w'' 7)))
          CTL_QUERY_PROGRAMMATIC ''heap.3.size'' (Some ''x'') (Some ''y'') (world0 [])) = Inr 7 \<and>
   pool (snd (ctl_query True (heap_tree (Some (log_cb ''r'' 0)) (Some (log_cb ''w'' 7)))
          CTL_QUERY_PROGRAMMATIC ''heap.3.size'' (Some ''x'') (Some ''y'') (world0 []))) =
     [(''r'', ''x'', [Ctl_index (Some ''arena'') 3]), (''w'', ''y'', [Ctl_index (Some ''arena'') 3])]"
proof -
  let ?r = "Some (log_cb ''r'' 0)" and ?w = "Some (log_cb ''w'' 7)"
  let ?ms = "[heap_node ?r ?w, arena_node ?r ?w, size_leaf ?r ?w]"
  have h1: "oom (world0 ([] :: (string \<times> string \<times> ctl_index list) list)) = []"
    by (simp add: world0_def)
  have h2: "matched_nodes (path_segments ''heap.3.size'') (Some (heap_tree ?r ?w)) = Some ?ms"
    by (simp only: heap_3_size_segments heap_3_size_matched)
  have h3: "?ms \<noteq> []" by simp
  have h4: "True \<longrightarrow> node_type (last ?ms) = CTL_NODE_LEAF"
    by (simp add: size_leaf_def)
  have h5: "Some ''x'' \<noteq> None \<longrightarrow> read_cb (last ?ms) = Some (log_cb ''r'' 0)"
    by (simp add: size_leaf_def)
  have h6: "Some ''y'' \<noteq> None \<longrightarrow> write_cb (last ?ms) = Some (log_cb ''w'' 7)"
    by (simp add: size_leaf_def)
  have h7: "Some ''x'' \<noteq> None \<or> Some ''y'' \<noteq> None" by simp
  have e: "rev (index_entries (zip (path_segments ''heap.3.size'') ?ms)) =
             [Ctl_index (Some ''arena'') 3]"
    by (simp add: heap_3_size_segments eval_defs)
  note c = ctl_query_dispatch_order [OF h1 h2 h3 h4 h5 h6 h7, of CTL_QUERY_PROGRAMMATIC]
  have s: "spec_dispatch (log_cb ''r'' 0) (log_cb ''w'' 7) CTL_QUERY_PROGRAMMATIC
             (Some ''x'') (Some ''y'') [Ctl_index (Some ''arena'') 3] [] =
           (7, [(''r'', ''x'', [Ctl_index (Some ''arena'') 3]),
                (''w'', ''y'', [Ctl_index (Some ''arena'') 3])])"
    by (simp add: spec_dispatch_def log_cb_def)
  have p: "pool (world0 ([] :: (string \<times> string \<times> ctl_index list) list)) = []"
    by (simp add: world0_def)
  from c e s p h1 h2 show ?thesis by (simp add: size_leaf_def)
qed

subsection \<open>C4: invalid calls\<close>

text \<open>
  C4. For a path whose segments all match (no allocation failing): when both
  arguments are NULL, or a read argument is given and the node reached has no read
  callback, or a write argument is given and the node has no write callback,
  \<^verbatim>\<open>ctl_query\<close> returns -1 with errno EINVAL, the pool is as before the call (no
  callback has run, whatever the callbacks of the tree are), and nothing stays
  allocated.
\<close>

theorem ctl_query_invalid_arguments:
  assumes "oom w = []"
    and "matched_nodes (path_segments name) (Some nodes) = Some ms"
    and "ms \<noteq> []"
    and "(ra = None \<and> wa = None) \<or> (ra \<noteq> None \<and> read_cb (last ms) = None) \<or>
         (wa \<noteq> None \<and> write_cb (last ms) = None)"
  shows "fst (ctl_query dbg nodes type name ra wa w) = Inr (- 1) \<and>
         errno (snd (ctl_query dbg nodes type name ra wa w)) = EINVAL \<and>
         pool (snd (ctl_query dbg nodes type name ra wa w)) = pool w \<and>
         live (snd (ctl_query dbg nodes type name ra wa w)) = live w"
proof -
  from assms(4) have v: "invalid_call (last ms) ra wa"
    by (auto simp: invalid_call_def)
  from ctl_query_resolved [OF assms(1,2), of dbg type ra wa] assms(3)
  obtain a indexes w1 where
    q: "ctl_query dbg nodes type name ra wa w =
          ctl_query_finish dbg type ra wa a (Some (last ms)) indexes w1"
    and l1: "live w1 = map fst indexes @ a # live w" and p1: "pool w1 = pool w"
    by auto
  from q v have e: "ctl_query dbg nodes type name ra wa w =
      (Inr (- 1), ctl_query_cleanup a indexes (w1\<lparr>errno := EINVAL\<rparr>))"
    by (simp add: ctl_query_finish_def)
  from l1 have "live (ctl_query_cleanup a indexes (w1\<lparr>errno := EINVAL\<rparr>)) = live w"
    by (intro cleanup_live) simp
  with e p1 show ?thesis by simp
qed

theorem ctl_query_invalid_arguments_witness:
  "oom (world0 ([] :: (string \<times> string \<times> ctl_index list) list)) = [] \<and>
   matched_nodes (path_segments ''heap.3.size'') (Some (heap_tree (Some (log_cb ''r'' 0)) None)) =
     Some [heap_node (Some (log_cb ''r'' 0)) None, arena_node (Some (log_cb ''r'' 0)) None,
           size_leaf (Some (log_cb ''r'' 0)) None] \<and>
   write_cb (size_leaf (Some (log_cb ''r'' 0)) None) = None \<and>
   fst (ctl_query True (heap_tree (Some (log_cb ''r'' 0)) None) CTL_QUERY_PROGRAMMATIC
          ''heap.3.size'' (Some ''x'') (Some ''y'') (world0 [])) = Inr (- 1) \<and>
   errno (snd (ctl_query True (heap_tree (Some (log_cb ''r'' 0)) None) CTL_QUERY_PROGRAMMATIC
          ''heap.3.size'' (Some ''x'') (Some ''y'') (world0 []))) = 22 \<and>
   pool (snd (ctl_query True (heap_tree (Some (log_cb ''r'' 0)) None) CTL_QUERY_PROGRAMMATIC
          ''heap.3.size'' (Some ''x'') (Some ''y'') (world0 []))) = [] \<and>
   live (snd (ctl_query True (heap_tree (Some (log_cb ''r'' 0)) None) CTL_QUERY_PROGRAMMATIC
          ''heap.3.size'' (Some ''x'') (Some ''y'') (world0 []))) = [5]"
proof -
  let ?r = "Some (log_cb ''r'' 0)"
  let ?ms = "[heap_node ?r None, arena_node ?r None, size_leaf ?r None]"
  have h1: "oom (world0 ([] :: (string \<times> string \<times> ctl_index list) list)) = []"
    by (simp add: world0_def)
  have h2: "matched_nodes (path_segments ''heap.3.size'') (Some (heap_tree ?r None)) = Some ?ms"
    by (simp only: heap_3_size_segments heap_3_size_matched)
  have h3: "?ms \<noteq> []" by simp
  have h4: "(Some ''x'' = None \<and> Some ''y'' = None) \<or>
            (Some ''x'' \<noteq> None \<and> read_cb (last ?ms) = None) \<or>
            (Some ''y'' \<noteq> None \<and> write_cb (last ?ms) = None)"
    by (simp add: size_leaf_def)
  note c = ctl_query_invalid_arguments [OF h1 h2 h3 h4, of True CTL_QUERY_PROGRAMMATIC]
  from c h1 h2 show ?thesis by (simp add: size_leaf_def world0_def EINVAL_def)
qed


text \<open>
  With both arguments NULL no path makes a difference: a call that returns returns -1,
  and no callback has run.
\<close>

lemma ctl_query_no_arguments:
  assumes "ctl_query dbg nodes type name None None w = (Inr r, w')"
  shows "r = - 1 \<and> pool w' = pool w"
proof (cases "Strdup name w")
  case (Pair a w0)
  from Pair have p0: "pool w0 = pool w"
    using Malloc_cases [of w a w0] by (simp add: Strdup_def)
  show ?thesis
  proof (cases a)
    case None
    with Pair assms p0 show ?thesis by (auto simp: ctl_query_def)
  next
    case (Some parse_str)
    obtain res es w1 where
      wk: "ctl_query_walk (fst (strtok_r name ''.'')) (snd (strtok_r name ''.''))
             (Some nodes) None [] w0 = (res, es, w1)"
      by (cases "ctl_query_walk (fst (strtok_r name ''.'')) (snd (strtok_r name ''.''))
                  (Some nodes) None [] (w0 :: 'a world)") auto
    from walk_live [OF wk] p0 have p1: "pool w1 = pool w" by simp
    from assms Pair Some wk p1 show ?thesis
      by (cases res)
         (auto simp: ctl_query_def ctl_query_finish_def invalid_call_def split: option.splits)
  qed
qed

subsection \<open>C6: which segments become an index\<close>

lemma is_digit_zero: "is_digit 8 CHR ''0''" "is_digit 10 CHR ''0''"
  by (simp_all add: is_digit_def digit_val_def)

lemma takeWhile_nonempty: "takeWhile P xs \<noteq> [] \<longleftrightarrow> (case xs of [] \<Rightarrow> False | x # _ \<Rightarrow> P x)"
  by (cases xs) auto

lemma strtol_consumes:
  "snd (strtol seg 0) \<noteq> 0 \<longleftrightarrow> begins_with_number seg"
proof -
  let ?s1 = "dropWhile isspace seg"
  let ?s2 = "case ?s1 of [] \<Rightarrow> ?s1 | c # r \<Rightarrow> if c = CHR ''-'' \<or> c = CHR ''+'' then r else ?s1"
  let ?hex = "hex_prefix ?s2"
  let ?b = "if ?hex then 16 else (case ?s2 of [] \<Rightarrow> 10 | c # _ \<Rightarrow> if c = CHR ''0'' then 8 else (10::nat))"
  let ?s3 = "if ?hex then drop 2 ?s2 else ?s2"
  define ds where "ds = takeWhile (is_digit ?b) ?s3"
  define k where "k = length seg - length ?s3"
  have snd_eq: "snd (strtol seg 0) = (if ds = [] then 0 else k + length ds)"
    by (simp add: strtol_def Let_def ds_def k_def)
  have a: "snd (strtol seg 0) \<noteq> 0 \<longleftrightarrow> ds \<noteq> []"
    unfolding snd_eq by (cases ds) auto
  have bw: "begins_with_number seg \<longleftrightarrow> (case ?s2 of [] \<Rightarrow> False | d # _ \<Rightarrow> is_digit 10 d)"
  proof (cases ?s1)
    case Nil
    then show ?thesis by (simp add: begins_with_number_def del: dropWhile_eq_Nil_conv)
  next
    case (Cons c r)
    then show ?thesis by (simp add: begins_with_number_def)
  qed
  have b: "ds \<noteq> [] \<longleftrightarrow> (case ?s2 of [] \<Rightarrow> False | d # _ \<Rightarrow> is_digit 10 d)"
  proof (cases ?hex)
    case True
    then obtain x h t where s2: "?s2 = CHR ''0'' # x # h # t" and h: "is_digit 16 h"
      by (auto simp: hex_prefix_def split: list.splits)
    from True s2 h have "ds \<noteq> []" by (simp add: ds_def takeWhile_nonempty)
    moreover from s2 have "(case ?s2 of [] \<Rightarrow> False | d # _ \<Rightarrow> is_digit 10 d)"
      by (simp add: is_digit_zero)
    ultimately show ?thesis by simp
  next
    case False
    show ?thesis
    proof (cases ?s2)
      case Nil
      with False show ?thesis by (simp add: ds_def)
    next
      case (Cons d t)
      with False show ?thesis
        by (cases "d = CHR ''0''") (simp_all add: ds_def is_digit_zero)
    qed
  qed
  show ?thesis by (simp only: a b bw)
qed

text \<open>
  C6, as the code has it. The index entry is made if and only if the segment begins
  with a number (\<^verbatim>\<open>strtol\<close> has consumed something: \<^verbatim>\<open>endptr != node_name\<close>), whether
  or not text follows the number; its value is the value of that number. A segment made
  of a number followed by letters is an index.
\<close>

theorem ctl_new_index_begins_with_number:
  "fst (ctl_new_index seg indexes w) =
     (if begins_with_number seg then
        (case fst (Malloc w) of
           None \<Rightarrow> None
         | Some a \<Rightarrow> Some (True, (a, Ctl_index None (fst (strtol seg 0))) # indexes))
      else Some (False, indexes))"
  using strtol_consumes [of seg]
  by (auto simp: ctl_new_index_def split: prod.splits option.splits)

theorem ctl_new_index_counterexample:
  "strtol ''12abc'' 0 = (12, 2) \<and> length ''12abc'' = 5 \<and>
   fst (ctl_new_index ''12abc'' [] (world0 ())) = Some (True, [(6, Ctl_index None 12)]) \<and>
   ctl_query True (heap_tree (Some (log_cb ''size'' 0)) None) CTL_QUERY_PROGRAMMATIC
     ''heap.12abc.size'' (Some ''x'') None (world0 []) =
   (Inr 0, \<lparr>pool = [(''size'', ''x'', [Ctl_index (Some ''arena'') 12])], live = [5], brk = 8,
            oom = [], errno = 0\<rparr>)"
  by (simp add: eval_defs)

subsection \<open>C7: which child a segment matches\<close>

lemma ctl_find_node_find:
  "ctl_find_node arr ie seg =
     (case List.find (\<lambda>m. node_name m = None \<or> (ie \<and> node_type m = CTL_NODE_INDEXED) \<or>
                          node_name m = Some seg) arr of
        None \<Rightarrow> Inl OutOfBounds
      | Some m \<Rightarrow> Inr m)"
  by (induction arr) (auto split: option.splits)

text \<open>
  C7, as the code has it. One turn of the loop, once the index entry is made or not:
  the scan stops at the first element of the array that is the terminating element, or
  that is Indexed while there is a pending index, or whose name is the text of the
  segment. So with a pending index the segment matches the first child that is Indexed
  or named like the segment, and without one the first child named like the segment.
  At the terminating element the query fails with errno EINVAL; otherwise the loop goes
  on in the children of the child matched.
\<close>

theorem ctl_query_walk_first_match:
  assumes "ctl_new_index seg indexes w = (Some (ie, indexes1), w1)"
  shows "ie = is_index_segment seg \<and>
     ctl_query_walk (Some seg) rest (Some arr) n indexes w =
     (case List.find (\<lambda>m. node_name m = None \<or> (ie \<and> node_type m = CTL_NODE_INDEXED) \<or>
                          node_name m = Some seg) arr of
        None \<Rightarrow> (Fault OutOfBounds, indexes1, w1)
      | Some m \<Rightarrow>
          (case node_name m of
             None \<Rightarrow> (Goto_error, indexes1, w1\<lparr>errno := EINVAL\<rparr>)
           | Some nm \<Rightarrow>
               ctl_query_walk (fst (strtok_r rest ''.'')) (snd (strtok_r rest ''.''))
                 (children m) (Some m)
                 (if ie then set_index_name (Some nm) indexes1 else indexes1) w1))"
  using assms ctl_new_index_Some [OF assms]
  by (simp add: ctl_find_node_find split: option.splits)

theorem ctl_query_walk_first_match_witness:
  "ctl_new_index ''nosuch'' [] (world0 ()) = (Some (False, []), world0 ()) \<and>
   ctl_query_walk (Some ''nosuch'') ''size'' (Some (heap_tree None None)) None [] (world0 ()) =
     (Goto_error, [], \<lparr>pool = (), live = [5], brk = 6, oom = [], errno = 22\<rparr>)"
proof -
  have h: "ctl_new_index ''nosuch'' [] (world0 ()) = (Some (False, []), world0 ())"
    by (simp add: eval_defs)
  from ctl_query_walk_first_match [OF h, of "''size''" "heap_tree None None" None] h
  show ?thesis by (simp add: eval_defs)
qed

theorem ctl_find_node_counterexample:
  "is_index_segment ''7'' \<and>
   map (\<lambda>n. (node_name n, node_type n)) numbered_nodes =
     [(Some ''7'', CTL_NODE_LEAF), (Some ''arena'', CTL_NODE_INDEXED), (None, CTL_NODE_UNKNOWN)] \<and>
   map_sum id (\<lambda>n. (node_name n, node_type n)) (ctl_find_node numbered_nodes True ''7'') =
     Inr (Some ''7'', CTL_NODE_LEAF)"
  by (simp add: eval_defs numbered_nodes_def)

subsection \<open>C9: segments after a Leaf\<close>

text \<open>
  C9. What the code does when segments follow the segment that matched a Leaf: the
  \<^verbatim>\<open>children\<close> of the Leaf are NULL, and the scan for the next segment reads through
  that pointer. The call does not return -1 with EINVAL: it has no defined result.
\<close>

theorem ctl_query_segment_after_leaf:
  "fst (ctl_query True (heap_tree (Some (log_cb ''size'' 0)) None) CTL_QUERY_PROGRAMMATIC
          ''heap.3.size.x'' (Some ''x'') None (world0 [])) = Inl NullDeref \<and>
   fst (ctl_query False (heap_tree (Some (log_cb ''size'' 0)) None) CTL_QUERY_PROGRAMMATIC
          ''heap.3.size.x'' (Some ''x'') None (world0 [])) = Inl NullDeref"
  by (simp add: eval_defs)


subsection \<open>C8: loading a configuration text\<close>

lemma strtok_all_None: "strtok_r s d = (None, r) \<Longrightarrow> strtok_all s d = []"
  by (simp add: strtok_all_def)

lemma strtok_all_Some: "strtok_r s d = (Some t, r) \<Longrightarrow> strtok_all s d = t # strtok_all r d"
  by (simp add: strtok_all_def)

lemma parse_query_two:
  "strtok_all b ''='' = [nm, v] \<Longrightarrow>
     ctl_string_provider_parse_query (Some b) q = (0, q\<lparr>q_name := Some nm, q_value := Some v\<rparr>)"
  by (auto simp: ctl_string_provider_parse_query_def
      split: prod.splits option.splits dest!: strtok_all_None strtok_all_Some)

lemma parse_query_not_two:
  "\<not> (\<exists>nm v. strtok_all b ''='' = [nm, v]) \<Longrightarrow>
     fst (ctl_string_provider_parse_query (Some b) q) = - 1"
  by (auto simp: ctl_string_provider_parse_query_def
      split: prod.splits option.splits dest!: strtok_all_None strtok_all_Some)

lemma spec_load_not_two:
  "\<not> (\<exists>nm v. strtok_all e ''='' = [nm, v]) \<Longrightarrow> spec_load dbg nodes (e # es) w = (Inr (- 1), w)"
  by (auto split: list.splits)

text \<open>
  The loop on the string provider, entered with the result of parsing the entry
  \<open>tok\<close>: it returns, and what it returns is what \<open>spec_load\<close> says, up to the last
  line of \<^verbatim>\<open>ctl_load_config\<close>.
\<close>

lemma ctl_load_loop_string:
  "map_option (\<lambda>(res, s, w'). (map_sum id (\<lambda>r. if r \<ge> 0 then 0 else - 1) res, w'))
     (ctl_load_loop dbg nodes string_provider
        (fst (ctl_string_provider_parse_query tok q0))
        (snd (ctl_string_provider_parse_query tok q0)) (sp\<lparr>sp_sptr := rest\<rparr>) w)
   = Some (spec_load dbg nodes (tokens_from '';'' tok rest) w)"
proof (induction "'';''" tok rest arbitrary: q0 sp w rule: tokens_from.induct)
  case (1 rest)
  show ?case
    by (subst ctl_load_loop.simps) (simp add: ctl_string_provider_parse_query_def)
next
  case (2 e rest)
  let ?tok = "fst (strtok_r rest '';'')" and ?rest = "snd (strtok_r rest '';'')"
  show ?case
  proof (cases "\<exists>nm v. strtok_all e ''='' = [nm, v]")
    case False
    from parse_query_not_two [OF False, of q0] spec_load_not_two [OF False, of dbg nodes]
    show ?thesis
      by (subst ctl_load_loop.simps) simp
  next
    case True
    then obtain nm v where nv: "strtok_all e ''='' = [nm, v]" by auto
    note pq = parse_query_two [OF nv, of q0]
    let ?q = "q0\<lparr>q_name := Some nm, q_value := Some v\<rparr>"
    obtain res w1 where
      cq: "ctl_query dbg nodes CTL_QUERY_CONFIG_INPUT nm None (Some v) w = (res, w1)"
      by (cases "ctl_query dbg nodes CTL_QUERY_CONFIG_INPUT nm None (Some v) w")
    show ?thesis
    proof (cases res)
      case (Inl f)
      with pq nv cq show ?thesis
        by (subst ctl_load_loop.simps) (simp add: ctl_exec_query_config_def)
    next
      case (Inr r)
      show ?thesis
      proof (cases "r = 0")
        case False
        with Inr pq nv cq show ?thesis
          by (subst ctl_load_loop.simps) (auto simp: ctl_exec_query_config_def)
      next
        case True
        have nx: "provider_next string_provider (sp\<lparr>sp_sptr := rest\<rparr>) ?q =
                   (fst (ctl_string_provider_parse_query ?tok ?q),
                    snd (ctl_string_provider_parse_query ?tok ?q),
                    sp\<lparr>sp_sptr := ?rest\<rparr>)"
          by (simp add: string_provider_def ctl_string_provider_next_def split: prod.splits)
        from "2.hyps" [of ?q sp w1]
        have "map_option (\<lambda>(res, s, w'). (map_sum id (\<lambda>r. if r \<ge> 0 then 0 else - 1) res, w'))
                (ctl_load_loop dbg nodes string_provider
                   (fst (ctl_string_provider_parse_query ?tok ?q))
                   (snd (ctl_string_provider_parse_query ?tok ?q)) (sp\<lparr>sp_sptr := ?rest\<rparr>) w1)
              = Some (spec_load dbg nodes (tokens_from '';'' ?tok ?rest) w1)" .
        with True Inr pq nv cq nx show ?thesis
          by (subst ctl_load_loop.simps) (simp add: ctl_exec_query_config_def)
      qed
    qed
  qed
qed

text \<open>
  C8, as the code has it. Loading a text with the string provider returns, and does
  what \<open>spec_load\<close> says on the entries between the \<^verbatim>\<open>;\<close> of the text, from left to
  right: each entry must split at \<^verbatim>\<open>=\<close> into exactly two tokens, the pair is applied by
  one query with only a write argument, the load stops at the first pair whose query
  does not return 0, and it returns -1 (not the result of that query) when that result
  is negative or an entry is malformed, and 0 when the entries are used up.
\<close>

theorem ctl_load_config_string:
  "map_option (\<lambda>(res, s, w'). (res, w'))
     (ctl_load_config dbg nodes string_provider (ctl_string_provider_new text) w)
   = Some (spec_load dbg nodes (strtok_all text '';'') w)"
proof -
  let ?q0 = "\<lparr>q_name = None, q_value = None\<rparr>"
  let ?tok = "fst (strtok_r text '';'')" and ?rest = "snd (strtok_r text '';'')"
  let ?sp = "ctl_string_provider_new text"
  have fs: "provider_first string_provider ?sp ?q0 =
              (fst (ctl_string_provider_parse_query ?tok ?q0),
               snd (ctl_string_provider_parse_query ?tok ?q0), ?sp\<lparr>sp_sptr := ?rest\<rparr>)"
    by (simp add: string_provider_def ctl_string_provider_first_def ctl_string_provider_new_def
        split: prod.splits)
  from ctl_load_loop_string [where dbg = dbg and nodes = nodes and tok = ?tok and ?q0.0 = ?q0
      and sp = ?sp and rest = ?rest and w = w]
  obtain res s w' where
    l: "ctl_load_loop dbg nodes string_provider
          (fst (ctl_string_provider_parse_query ?tok ?q0))
          (snd (ctl_string_provider_parse_query ?tok ?q0)) (?sp\<lparr>sp_sptr := ?rest\<rparr>) w
        = Some (res, s, w')"
    and r: "(map_sum id (\<lambda>r. if r \<ge> 0 then 0 else - 1) res, w') =
            spec_load dbg nodes (strtok_all text '';'') w"
    by (auto simp: strtok_all_def)
  from fs l r show ?thesis
    by (cases res) (auto simp: ctl_load_config_def)
qed

theorem ctl_load_config_string_witness:
  "strtok_all ''a.0.b=1;c=2'' '';'' = [''a.0.b=1'', ''c=2''] \<and>
   map_option (\<lambda>(res, s, w'). (res, w'))
     (ctl_load_config True (config_tree 0 0) string_provider
        (ctl_string_provider_new ''a.0.b=1;c=2'') (world0 []))
   = Some (Inr 0, \<lparr>pool = [(''b'', ''1'', [Ctl_index (Some ''n'') 0]), (''c'', ''2'', [])],
                    live = [5], brk = 9, oom = [], errno = 0\<rparr>)"
proof -
  have t: "strtok_all ''a.0.b=1;c=2'' '';'' = [''a.0.b=1'', ''c=2'']"
    by (simp add: strtok_all_def strtok_r_def)
  have s: "spec_load True (config_tree 0 0) [''a.0.b=1'', ''c=2''] (world0 []) =
      (Inr 0, \<lparr>pool = [(''b'', ''1'', [Ctl_index (Some ''n'') 0]), (''c'', ''2'', [])],
                live = [5], brk = 9, oom = [], errno = 0\<rparr>)"
    by (simp add: eval_defs config_tree_def)
  from ctl_load_config_string [of True "config_tree 0 0" "''a.0.b=1;c=2''" "world0 []"] t s
  show ?thesis by simp
qed

theorem ctl_load_config_counterexample:
  "fst (ctl_exec_query_config True (config_tree 0 (- 5))
          \<lparr>q_name = Some ''c'', q_value = Some ''2''\<rparr> (world0 [])) = Inr (- 5) \<and>
   map_option fst (ctl_load_config True (config_tree 0 (- 5)) string_provider
                     (ctl_string_provider_new ''a.0.b=1;c=2'') (world0 [])) = Some (Inr (- 1))"
  by (simp add: ctl_load_config_def ctl_load_loop.simps string_provider_def
      ctl_string_provider_first_def ctl_string_provider_next_def ctl_string_provider_new_def
      ctl_string_provider_parse_query_def ctl_exec_query_config_def eval_defs config_tree_def)

subsection \<open>C5: registering a module node\<close>

text \<open>
  C5, as the code has it. While fewer than \<^verbatim>\<open>CTL_MAX_ENTRIES\<close> nodes are registered
  (the root array is the registered nodes followed by terminating elements, and
  \<^verbatim>\<open>first_free\<close> is their number), registering stores a Named node with a copy of the
  name and the given children right after the registered nodes and adds one to
  \<^verbatim>\<open>first_free\<close>. The function returns nothing: it reports no error.
\<close>

theorem ctl_register_module_node_appends:
  assumes "root c = regs @ replicate k CTL_NODE_END"
    and "length (root c) = nat CTL_MAX_ENTRIES"
    and "first_free c = int (length regs)"
    and "first_free c < CTL_MAX_ENTRIES"
    and "Strdup name w = (Some a, w1)"
  shows "ctl_register_module_node c name n w =
     Inr (c\<lparr>root := regs @ Ctl_node (Some name) CTL_NODE_NAMED None None n
                       # replicate (k - 1) CTL_NODE_END,
            first_free := int (length regs) + 1\<rparr>, w1)"
proof -
  from assms(1-4) have k: "0 < k" by (simp add: CTL_MAX_ENTRIES_def)
  then obtain j where j: "k = Suc j" by (cases k) auto
  from assms(1) j have nth: "root c ! length regs = CTL_NODE_END"
    by (simp add: nth_append)
  from assms(1) j have upd: "\<And>v. (root c)[length regs := v] = regs @ v # replicate j CTL_NODE_END"
    by (simp add: list_update_append)
  from assms(1,3) j have "\<not> (first_free c < 0 \<or> int (length (root c)) \<le> first_free c)"
    by simp
  with assms(3,5) nth upd j show ?thesis
    by (simp add: ctl_register_module_node_def Let_def CTL_NODE_END_def)
qed

theorem ctl_register_module_node_appends_witness:
  "ctl_register_module_node
     (\<lparr>root = replicate 100 CTL_NODE_END, first_free = 0\<rparr> :: (unit, unit) ctl) ''heap''
     (Some (heap_tree None None)) (world0 ()) =
   Inr (\<lparr>root = Ctl_node (Some ''heap'') CTL_NODE_NAMED None None (Some (heap_tree None None))
                 # replicate 99 CTL_NODE_END,
          first_free = 1\<rparr>,
        \<lparr>pool = (), live = [6, 5], brk = 7, oom = [], errno = 0\<rparr>)"
proof -
  let ?c = "\<lparr>root = replicate 100 CTL_NODE_END, first_free = 0\<rparr> :: (unit, unit) ctl"
  have h1: "root ?c = [] @ replicate 100 CTL_NODE_END" by simp
  have h2: "length (root ?c) = nat CTL_MAX_ENTRIES" by (simp add: CTL_MAX_ENTRIES_def)
  have h3: "first_free ?c = int (length ([] :: (unit, unit) ctl_node list))" by simp
  have h4: "first_free ?c < CTL_MAX_ENTRIES" by (simp add: CTL_MAX_ENTRIES_def)
  have h5: "Strdup ''heap'' (world0 ()) =
              (Some 6, \<lparr>pool = (), live = [6, 5], brk = 7, oom = [], errno = 0\<rparr>)"
    by (simp add: Strdup_def Malloc_def alloc_fresh_def world0_def)
  from ctl_register_module_node_appends [OF h1 h2 h3 h4 h5, of "Some (heap_tree None None)"]
  show ?thesis by simp
qed

theorem ctl_register_module_node_counterexample:
  "first_free full_ctl = CTL_MAX_ENTRIES \<and>
   ctl_register_module_node full_ctl ''x'' None (world0 ()) = Inl OutOfBounds \<and>
   (case ctl_register_module_node almost_full_ctl ''x'' None (world0 ()) of
      Inl f \<Rightarrow> False
    | Inr (c, w) \<Rightarrow> first_free c = CTL_MAX_ENTRIES \<and> list_all (\<lambda>n. node_name n \<noteq> None) (root c))"
  by (simp add: ctl_register_module_node_def full_ctl_def almost_full_ctl_def module_node_def
      CTL_MAX_ENTRIES_def Strdup_def Malloc_def alloc_fresh_def world0_def list_update_append
      list_all_iff)


end
